theory Spec2Isabelle
  imports Complex_Main "HOL-Library.Word" "HOL-Library.Sublist" "HOL-Library.Log_Nat"
begin

section \<open>Group image cropper: a shallow embedding of \<^verbatim>\<open>src/App.tsx\<close>\<close>

text \<open>
  The component \<^verbatim>\<open>ImageCropperApp\<close> keeps its state in React hooks and changes it in
  event handlers. Each handler is modelled as a function from the state before the event
  to the state after it; what the browser and the cropper library decide (image decoding,
  the clock, whether an exception is thrown) is an explicit parameter.

  Numbers. A JavaScript \<^verbatim>\<open>number\<close> is an IEEE double. The finite doubles are
  rationals, and the numbers kept in the state (crop rectangles, extents, ratios) are
  modelled as rationals. The result of an arithmetic operation is a \<open>number\<close>: the exact
  result rounded to the nearest double (\<open>fl64\<close>), or an infinity, or \<^verbatim>\<open>NaN\<close>. Zero
  has no sign in the model: the divisors of the handlers are extents of the crop surface
  and of the image, never \<^verbatim>\<open>-0\<close>. A handler returns \<open>None\<close> exactly when a value that
  is not finite would be written into the state or pushed into the crop surface.
\<close>

subsection \<open>Data model\<close>

record CropDimensions =
  x :: rat
  y :: rat
  width :: rat
  height :: rat

record CropSettings = CropDimensions +
  aspectRatio :: rat

text \<open>
  \<^verbatim>\<open>Cropper.CanvasData\<close> and the result of \<^verbatim>\<open>getContainerData()\<close>. Their fields are
  called \<^verbatim>\<open>width\<close>, \<^verbatim>\<open>height\<close>, \<^verbatim>\<open>left\<close>, \<^verbatim>\<open>top\<close> in the library; they are prefixed
  here because a record field name is global.
\<close>

record CanvasData =
  canvasLeft :: rat
  canvasTop :: rat
  canvasWidth :: rat
  canvasHeight :: rat
  naturalWidth :: rat
  naturalHeight :: rat

record ContainerData =
  containerWidth :: rat
  containerHeight :: rat

text \<open>The state \<^verbatim>\<open>originalDimensions: { width, height } | null\<close>.\<close>

record Dimensions =
  originalWidth :: rat
  originalHeight :: rat

text \<open>
  A \<^verbatim>\<open>File\<close>: its name, its declared content type and its size in bytes
  (\<^verbatim>\<open>size\<close> in the source).
\<close>

record File =
  name :: string
  type :: string
  size_bytes :: nat

text \<open>
  \<^verbatim>\<open>ImageData\<close>. The fields \<^verbatim>\<open>id\<close> and \<^verbatim>\<open>file\<close> are \<open>image_id\<close> and
  \<open>image_file\<close> here. The two object URLs of a
  record (\<^verbatim>\<open>url\<close>, \<^verbatim>\<open>objectUrl\<close>) are display resources of the browser and are left out,
  with the release list \<^verbatim>\<open>objectUrlsToCleanup\<close>.
\<close>

record ImageData =
  image_id :: string
  image_file :: File
  cropped :: bool
  cropHistory :: "CropDimensions list"
  cropSettings :: "CropSettings option"
  canvasData :: "CanvasData option"

text \<open>
  The crop surface behind \<^verbatim>\<open>cropperRef.current?.cropper\<close>, as far as the handlers read
  it: \<^verbatim>\<open>getData()\<close>, \<^verbatim>\<open>getCanvasData()\<close>, \<^verbatim>\<open>getContainerData()\<close>, and whether
  \<^verbatim>\<open>destroy()\<close> was called. The rotation and scale entries of \<^verbatim>\<open>Cropper.Data\<close> are
  copied untouched by the handlers and left out.
\<close>

record Cropper =
  getData :: CropDimensions
  getCanvasData :: CanvasData
  getContainerData :: ContainerData
  destroyed :: bool

text \<open>
  What the crop surface does with \<^verbatim>\<open>setData\<close> and \<^verbatim>\<open>setAspectRatio\<close> is the library's
  business; the handlers that call them take the two operations as parameters.
\<close>

record Surface =
  setData :: "CropDimensions \<Rightarrow> Cropper \<Rightarrow> Cropper"
  setAspectRatio :: "rat \<Rightarrow> Cropper \<Rightarrow> Cropper"

text \<open>
  A notice, as the arguments of one \<^verbatim>\<open>createToastMessage(type, params)\<close> call. The kind
  \<^verbatim>\<open>'limit'\<close> has two forms: with \<^verbatim>\<open>count\<close> only (at limit) and with \<^verbatim>\<open>added\<close> and
  \<^verbatim>\<open>ignored\<close> (partial).
\<close>

datatype toast =
    LimitAtLimit nat
  | LimitPartial nat nat
  | Duplicate nat
  | InvalidType nat
  | FileSize string
  | MimeMismatch string string
  | InvalidDimensions nat
  | InvalidImage nat
  | LoadError

record AppState =
  images :: "ImageData list"
  currentImage :: "ImageData option"
  activeCropSettings :: CropSettings
  globalCropSettings :: "CropSettings option"
  isPerImageCrop :: bool
  originalDimensions :: "Dimensions option"
  isProcessing :: bool
  selectedAspectRatio :: string
  saveOnCancel :: bool
  initialCropSettings :: "CropSettings option"
  isClosing :: bool
  isOpen :: bool
  cropper :: "Cropper option"
  toasts :: "toast list"

definition initialState :: AppState where
  "initialState =
     \<lparr>images = [], currentImage = None,
      activeCropSettings = \<lparr>x = 0, y = 0, width = 0, height = 0, aspectRatio = 0\<rparr>,
      globalCropSettings = None, isPerImageCrop = True, originalDimensions = None,
      isProcessing = False, selectedAspectRatio = ''free'', saveOnCancel = False,
      initialCropSettings = None, isClosing = False, isOpen = False, cropper = None,
      toasts = []\<rparr>"

subsection \<open>Constants\<close>

definition ACCEPTED_TYPES :: "(string \<times> string list) list" where
  "ACCEPTED_TYPES =
     [(''image/jpeg'', [''.jpg'', ''.jpeg'']),
      (''image/png'', [''.png'']),
      (''image/gif'', [''.gif'']),
      (''image/webp'', [''.webp''])]"

definition IMAGE_SIZE_MIN :: nat where "IMAGE_SIZE_MIN = 16"
definition IMAGE_SIZE_MAX :: nat where "IMAGE_SIZE_MAX = 10000"
definition CROP_SIZE_MIN :: rat where "CROP_SIZE_MIN = 1"
definition CROP_SIZE_MAX :: rat where "CROP_SIZE_MAX = 9999"
definition MAX_FILE_SIZE :: nat where "MAX_FILE_SIZE = 10 * 1024 * 1024"

definition ASPECT_FREE :: string where "ASPECT_FREE = ''free''"
definition ASPECT_ORIGINAL :: string where "ASPECT_ORIGINAL = ''original''"
definition ASPECT_SQUARE :: string where "ASPECT_SQUARE = ''1:1''"

subsection \<open>Double arithmetic\<close>

datatype number = Finite rat | PosInfinity | NegInfinity | NaN

text \<open>
  The binary exponent of a non-zero rational \<open>v\<close>: the \<open>e\<close> with
  \<open>2 ^ e \<le> \<bar>v\<bar> < 2 ^ (e + 1)\<close>, found from the bit lengths of numerator and
  denominator.
\<close>

definition exponent :: "rat \<Rightarrow> int" where
  "exponent v =
     (let (p, q) = quotient_of \<bar>v\<bar>;
          e = bitlen p - bitlen q
      in if 2 powi e \<le> \<bar>v\<bar> then e else e - 1)"

text \<open>The nearest integer, a tie going to the even one.\<close>

definition round_half_even :: "rat \<Rightarrow> int" where
  "round_half_even v =
     (let f = \<lfloor>v\<rfloor>; r = v - of_int f
      in if r < 1 / 2 then f
         else if 1 / 2 < r then f + 1
         else if even f then f else f + 1)"

text \<open>
  Rounding to double precision, as every arithmetic operation of the source does with
  its exact result: 53 significant bits, to nearest with ties to even; below the exponent
  \<open>-1022\<close> the spacing stays \<open>2 ^ -1074\<close> (subnormal numbers); a rounded value that
  needs an exponent above 1023 overflows to an infinity.
\<close>

definition fl64 :: "rat \<Rightarrow> number" where
  "fl64 v =
     (if v = 0 then Finite 0
      else
        (let e = max (exponent v) (- 1022);
             ulp = 2 powi (e - 52);
             r = of_int (round_half_even (v / ulp)) * ulp
         in if 1024 \<le> exponent r
            then (if 0 < v then PosInfinity else NegInfinity)
            else Finite r))"

text \<open>
  The operators \<^verbatim>\<open>/\<close>, \<^verbatim>\<open>*\<close> and \<^verbatim>\<open>-\<close> on the operands the handlers give them: a
  quotient of two finite numbers, whose product with a finite number is taken, and a
  finite number minus a quotient or a finite number.
\<close>

definition js_divide :: "rat \<Rightarrow> rat \<Rightarrow> number" where
  "js_divide a b =
     (if b = 0 then (if a = 0 then NaN else if 0 < a then PosInfinity else NegInfinity)
      else fl64 (a / b))"

definition js_times :: "number \<Rightarrow> rat \<Rightarrow> number" where
  "js_times a b =
     (case a of
        Finite v \<Rightarrow> fl64 (v * b)
      | PosInfinity \<Rightarrow> (if b = 0 then NaN else if 0 < b then PosInfinity else NegInfinity)
      | NegInfinity \<Rightarrow> (if b = 0 then NaN else if 0 < b then NegInfinity else PosInfinity)
      | NaN \<Rightarrow> NaN)"

definition js_minus :: "rat \<Rightarrow> number \<Rightarrow> number" where
  "js_minus a b =
     (case b of
        Finite v \<Rightarrow> fl64 (a - v)
      | PosInfinity \<Rightarrow> NegInfinity
      | NegInfinity \<Rightarrow> PosInfinity
      | NaN \<Rightarrow> NaN)"

text \<open>
  \<^verbatim>\<open>Math.round\<close>: the nearest integer, a tie going up. On a double the result is a
  double again, so nothing is rounded a second time.
\<close>

definition Math_round :: "rat \<Rightarrow> rat" where
  "Math_round v = of_int \<lfloor>v + 1 / 2\<rfloor>"

definition Math_round_number :: "number \<Rightarrow> number" where
  "Math_round_number a = (case a of Finite v \<Rightarrow> Finite (Math_round v) | _ \<Rightarrow> a)"

fun Math_min :: "number \<Rightarrow> number \<Rightarrow> number" where
  "Math_min NaN b = NaN"
| "Math_min a NaN = NaN"
| "Math_min NegInfinity b = NegInfinity"
| "Math_min a NegInfinity = NegInfinity"
| "Math_min PosInfinity b = b"
| "Math_min a PosInfinity = a"
| "Math_min (Finite a) (Finite b) = Finite (min a b)"

fun Math_max :: "number \<Rightarrow> number \<Rightarrow> number" where
  "Math_max NaN b = NaN"
| "Math_max a NaN = NaN"
| "Math_max PosInfinity b = PosInfinity"
| "Math_max a PosInfinity = PosInfinity"
| "Math_max NegInfinity b = b"
| "Math_max a NegInfinity = a"
| "Math_max (Finite a) (Finite b) = Finite (max a b)"

definition Math_abs :: "number \<Rightarrow> number" where
  "Math_abs a =
     (case a of
        Finite v \<Rightarrow> Finite \<bar>v\<bar>
      | PosInfinity \<Rightarrow> PosInfinity
      | NegInfinity \<Rightarrow> PosInfinity
      | NaN \<Rightarrow> NaN)"

text \<open>The comparison \<^verbatim>\<open><\<close>, false as soon as one side is \<^verbatim>\<open>NaN\<close>.\<close>

fun js_less :: "number \<Rightarrow> number \<Rightarrow> bool" where
  "js_less NaN b = False"
| "js_less a NaN = False"
| "js_less (Finite a) (Finite b) = (a < b)"
| "js_less NegInfinity NegInfinity = False"
| "js_less NegInfinity b = True"
| "js_less a PosInfinity = (a \<noteq> PosInfinity)"
| "js_less a b = False"

text \<open>A finite number as a value of the state; \<open>None\<close> for the others.\<close>

definition finite_value :: "number \<Rightarrow> rat option" where
  "finite_value a = (case a of Finite v \<Rightarrow> Some v | _ \<Rightarrow> None)"

subsection \<open>Crop coordinate engine\<close>

definition convertToDisplaySize :: "rat \<Rightarrow> rat \<Rightarrow> rat \<Rightarrow> number" where
  "convertToDisplaySize actualSize originalSize displaySize =
     Math_round_number (js_times (js_divide actualSize originalSize) displaySize)"

definition convertToActualSize :: "rat \<Rightarrow> rat \<Rightarrow> rat \<Rightarrow> number" where
  "convertToActualSize displaySize originalSize containerSize =
     Math_round_number (js_times (js_divide displaySize containerSize) originalSize)"

text \<open>
  \<^verbatim>\<open>getAspectRatioFromSelection\<close> reads the state \<^verbatim>\<open>originalDimensions\<close>, which is the
  first argument here. The ratio goes into the state, so the result is \<open>None\<close> when the
  quotient is not finite (a zero height, or an overflow).
\<close>

definition getAspectRatioFromSelection :: "Dimensions option \<Rightarrow> string \<Rightarrow> rat option" where
  "getAspectRatioFromSelection dims value =
     (if value = ASPECT_ORIGINAL then
        (case dims of
           None \<Rightarrow> Some 0
         | Some d \<Rightarrow> finite_value (js_divide (originalWidth d) (originalHeight d)))
      else if value = ASPECT_SQUARE then Some 1
      else Some 0)"

text \<open>
  In \<^verbatim>\<open>getSelectionFromAspectRatio\<close> the literal \<^verbatim>\<open>0.0001\<close> is the double nearest to
  one ten-thousandth.
\<close>

definition getSelectionFromAspectRatio :: "rat \<Rightarrow> Dimensions option \<Rightarrow> string" where
  "getSelectionFromAspectRatio ratio dims =
     (if ratio = 1 then ASPECT_SQUARE
      else
        (case dims of
           None \<Rightarrow> ASPECT_FREE
         | Some d \<Rightarrow>
             if js_less
                  (Math_abs (js_minus ratio (js_divide (originalWidth d) (originalHeight d))))
                  (fl64 (1 / 10000))
             then ASPECT_ORIGINAL
             else ASPECT_FREE))"

subsection \<open>File names\<close>

text \<open>
  A file name is a \<open>string\<close>, one \<open>char\<close> for one code unit (so the model covers names
  in Latin-1). \<^verbatim>\<open>lastIndexOf\<close> gives the index of the last occurrence, or \<open>-1\<close>.
\<close>

fun lastIndexOf :: "string \<Rightarrow> char \<Rightarrow> int" where
  "lastIndexOf [] c = - 1"
| "lastIndexOf (a # s) c =
     (let r = lastIndexOf s c
      in if 0 \<le> r then r + 1 else if a = c then 0 else - 1)"

text \<open>
  \<^verbatim>\<open>toLowerCase\<close> on Latin-1: the capital letters \<open>A\<close> to \<open>Z\<close> and the accented
  capitals \<open>0xC0\<close> to \<open>0xDE\<close> (the multiplication sign \<open>0xD7\<close> apart) move up by 32.
\<close>

definition toLowerCase_char :: "char \<Rightarrow> char" where
  "toLowerCase_char c =
     (let n = (of_char c :: nat)
      in if (65 \<le> n \<and> n \<le> 90) \<or> (192 \<le> n \<and> n \<le> 222 \<and> n \<noteq> 215)
         then char_of (n + 32) else c)"

definition toLowerCase :: "string \<Rightarrow> string" where
  "toLowerCase s = map toLowerCase_char s"

text \<open>
  \<^verbatim>\<open>filename.slice(((filename.lastIndexOf('.') - 1) >>> 0) + 2).toLowerCase()\<close>: the
  unsigned shift by zero reads \<open>index - 1\<close> as an unsigned 32-bit integer, so that for a
  name without a dot, or with its only dot in front, the slice starts beyond \<open>2 ^ 32\<close>.
\<close>

definition getFileExtension :: "string \<Rightarrow> string" where
  "getFileExtension filename =
     toLowerCase
       (drop (unat (word_of_int (lastIndexOf filename CHR ''.'' - 1) :: 32 word) + 2) filename)"

subsection \<open>Validator\<close>

text \<open>
  What the browser reports for one file handed to \<^verbatim>\<open>validateImage\<close>: the image loads
  with its natural \<^verbatim>\<open>width\<close> and \<^verbatim>\<open>height\<close> and the outcome of the 1x1 sample read;
  or \<^verbatim>\<open>onerror\<close> fires; or the 10 s timer fires first; or setting the probe up throws.
\<close>

datatype sample_outcome = SampleRead | NoContext | SampleThrows

datatype load_outcome =
    OnLoad nat nat sample_outcome
  | OnError
  | TimedOut
  | SetupThrows

datatype validation_error = too_small | too_large | corrupt

datatype validation = Valid | Invalid validation_error

definition validateImage :: "(File \<Rightarrow> load_outcome) \<Rightarrow> File \<Rightarrow> validation" where
  "validateImage decode f =
     (case decode f of
        OnLoad w h sample \<Rightarrow>
          if w < IMAGE_SIZE_MIN \<or> h < IMAGE_SIZE_MIN then Invalid too_small
          else if w > IMAGE_SIZE_MAX \<or> h > IMAGE_SIZE_MAX then Invalid too_large
          else (case sample of
                  SampleRead \<Rightarrow> Valid
                | NoContext \<Rightarrow> Invalid corrupt
                | SampleThrows \<Rightarrow> Invalid corrupt)
      | OnError \<Rightarrow> Invalid corrupt
      | TimedOut \<Rightarrow> Invalid corrupt
      | SetupThrows \<Rightarrow> Invalid corrupt)"

subsection \<open>Ingestion pipeline\<close>

text \<open>
  The browser as \<^verbatim>\<open>processFiles\<close> sees it: the decoder behind \<^verbatim>\<open>validateImage\<close>, and
  \<^verbatim>\<open>Date.now()\<close> at the \<open>k\<close>-th turn of the admission loop.
\<close>

record Browser =
  decode :: "File \<Rightarrow> load_outcome"
  now :: "nat \<Rightarrow> nat"

text \<open>The decimal digits of a number, as a template literal prints them.\<close>

fun string_of_nat :: "nat \<Rightarrow> string" where
  "string_of_nat n =
     (if n < 10 then [char_of (48 + n)]
      else string_of_nat (n div 10) @ [char_of (48 + n mod 10)])"

declare string_of_nat.simps [simp del]

text \<open>\<^verbatim>\<open>existingFilenames\<close>: the names of the images of the Session.\<close>

definition existingFilenames :: "ImageData list \<Rightarrow> string list" where
  "existingFilenames imgs = map (\<lambda>img. name (image_file img)) imgs"

text \<open>
  The callback of \<^verbatim>\<open>files.filter\<close> in the type, size and extension stage: whether the
  file is kept, and the notices the callback pushes.
\<close>

definition imageFileFilter :: "File \<Rightarrow> bool \<times> toast list" where
  "imageFileFilter f =
     (if type f \<notin> set (map fst ACCEPTED_TYPES) then (False, [])
      else if size_bytes f > MAX_FILE_SIZE then (False, [FileSize (name f)])
      else
        (let extension = getFileExtension (name f);
             acceptedExtensions =
               (case map_of ACCEPTED_TYPES (type f) of Some exts \<Rightarrow> exts | None \<Rightarrow> [])
         in if (''.'' @ extension) \<notin> set acceptedExtensions
            then (False, [MimeMismatch (name f) (type f)])
            else (True, [])))"

fun filterImageFiles :: "File list \<Rightarrow> File list \<times> toast list" where
  "filterImageFiles [] = ([], [])"
| "filterImageFiles (f # fs) =
     (let (keep, pushed) = imageFileFilter f;
          (kept, messages) = filterImageFiles fs
      in ((if keep then f # kept else kept), pushed @ messages))"

text \<open>
  The admission loop over \<^verbatim>\<open>filesToProcess\<close>: the images so far (each
  \<^verbatim>\<open>setImages((prev) => [...prev, newImage])\<close> appends), \<^verbatim>\<open>invalidSizeCount\<close> and
  \<^verbatim>\<open>invalidImageCount\<close>. Creating the object URL of a valid file is taken to succeed,
  so the \<^verbatim>\<open>catch\<close> of the loop body is not entered.
\<close>

definition newImage :: "Browser \<Rightarrow> nat \<Rightarrow> File \<Rightarrow> ImageData" where
  "newImage b k f =
     \<lparr>image_id = name f @ ''-'' @ string_of_nat (now b k), image_file = f,
      cropped = False, cropHistory = [], cropSettings = None, canvasData = None\<rparr>"

fun admitLoop ::
  "Browser \<Rightarrow> nat \<Rightarrow> File list \<Rightarrow> ImageData list \<times> nat \<times> nat \<Rightarrow> ImageData list \<times> nat \<times> nat"
where
  "admitLoop b k [] acc = acc"
| "admitLoop b k (f # fs) (imgs, invalidSizeCount, invalidImageCount) =
     (case validateImage (decode b) f of
        Valid \<Rightarrow>
          admitLoop b (Suc k) fs
            (imgs @ [newImage b k f], invalidSizeCount, invalidImageCount)
      | Invalid e \<Rightarrow>
          if e = too_small \<or> e = too_large
          then admitLoop b (Suc k) fs (imgs, invalidSizeCount + 1, invalidImageCount)
          else admitLoop b (Suc k) fs (imgs, invalidSizeCount, invalidImageCount + 1))"

text \<open>
  The body of the debounced timer of \<^verbatim>\<open>processFiles\<close>. It ends every path by clearing
  \<^verbatim>\<open>isProcessing\<close> and flushing \<^verbatim>\<open>messages\<close>; \<^verbatim>\<open>toast.closeAll()\<close> has emptied the
  notification channel before.
\<close>

definition finishBatch :: "toast list \<Rightarrow> AppState \<Rightarrow> AppState" where
  "finishBatch messages st = st\<lparr>isProcessing := False, toasts := messages\<rparr>"

definition processBatch :: "Browser \<Rightarrow> File list \<Rightarrow> AppState \<Rightarrow> AppState" where
  "processBatch b files st =
     (let remainingSlots = nat (max 0 (10 - int (length (images st))))
      in if remainingSlots = 0 then finishBatch [LimitAtLimit (length files)] st
      else
        (let (imageFiles, pushed) = filterImageFiles files;
             invalidTypeCount = length files - length imageFiles;
             messages1 = pushed @ (if invalidTypeCount > 0 then [InvalidType invalidTypeCount] else [])
         in if invalidTypeCount > 0 \<and> imageFiles = [] then finishBatch messages1 st
         else
           (let nonDuplicateFiles =
                  filter (\<lambda>f. name f \<notin> set (existingFilenames (images st))) imageFiles;
                duplicateCount = length imageFiles - length nonDuplicateFiles;
                messages2 = messages1 @ (if duplicateCount > 0 then [Duplicate duplicateCount] else [])
            in if duplicateCount > 0 \<and> nonDuplicateFiles = [] then finishBatch messages2 st
            else
              (let filesToProcess = take remainingSlots nonDuplicateFiles;
                   ignoredDueToLimit =
                     nat (max 0 (int (length nonDuplicateFiles) - int remainingSlots))
               in if filesToProcess = [] then
                    finishBatch
                      (messages2 @
                         (if ignoredDueToLimit > 0
                          then [LimitPartial (length filesToProcess) ignoredDueToLimit] else []))
                      st
                  else
                    (let (imgs, invalidSizeCount, invalidImageCount) =
                           admitLoop b 0 filesToProcess (images st, 0, 0);
                         messages3 =
                           messages2
                           @ (if invalidSizeCount > 0 then [InvalidDimensions invalidSizeCount] else [])
                           @ (if invalidImageCount > 0 then [InvalidImage invalidImageCount] else [])
                           @ (if ignoredDueToLimit > 0
                              then [LimitPartial (length filesToProcess - invalidImageCount)
                                      ignoredDueToLimit]
                              else [])
                     in finishBatch messages3 (st\<lparr>images := imgs\<rparr>))))))"

text \<open>
  \<^verbatim>\<open>processFiles\<close>: a call while a batch is in flight, or with no file, does nothing;
  otherwise the batch runs. The model is sequential: the debounce delay and the delays
  before the flag and the notices change are left out, the state returned is the one
  after the batch has completed, and no other event falls between its start and its end,
  so that the list \<^verbatim>\<open>images\<close> the timer callback has captured and the list \<^verbatim>\<open>prev\<close>
  that \<^verbatim>\<open>setImages\<close> appends to are the same. The render sorts the array of images in
  place by file name; no handler depends on the order, and the model keeps the order of
  admission.
\<close>

definition processFiles :: "Browser \<Rightarrow> File list \<Rightarrow> AppState \<Rightarrow> AppState" where
  "processFiles b files st =
     (if isProcessing st then st
      else if files = [] then st
      else processBatch b files (st\<lparr>isProcessing := True, toasts := []\<rparr>))"

definition handleDelete :: "string \<Rightarrow> AppState \<Rightarrow> AppState" where
  "handleDelete del_id st = st\<lparr>images := filter (\<lambda>img. image_id img \<noteq> del_id) (images st)\<rparr>"

subsection \<open>Crop state manager\<close>

text \<open>
  The update \<^verbatim>\<open>prev.map((img) => img.id === currentImage.id ? {...} : img)\<close>, which the
  handlers below all use.
\<close>

definition updateImage ::
  "ImageData \<Rightarrow> (ImageData \<Rightarrow> ImageData) \<Rightarrow> ImageData list \<Rightarrow> ImageData list" where
  "updateImage cur f prev = map (\<lambda>img. if image_id img = image_id cur then f img else img) prev"

definition updateCropSettings :: "CropDimensions \<Rightarrow> AppState \<Rightarrow> AppState option" where
  "updateCropSettings d st =
     (case js_divide (width d) (height d) of
        Finite ratio \<Rightarrow>
          (let newCropSettings =
                 \<lparr>x = Math_round (x d), y = Math_round (y d), width = Math_round (width d),
                  height = Math_round (height d), aspectRatio = ratio\<rparr>;
               st1 = st\<lparr>activeCropSettings := newCropSettings\<rparr>
           in Some
                (case currentImage st of
                   Some cur \<Rightarrow>
                     if isPerImageCrop st
                     then st1\<lparr>images :=
                            updateImage cur (\<lambda>img. img\<lparr>cropSettings := Some newCropSettings\<rparr>)
                              (images st)\<rparr>
                     else st1\<lparr>globalCropSettings := Some newCropSettings\<rparr>
                 | None \<Rightarrow> st1\<lparr>globalCropSettings := Some newCropSettings\<rparr>))
      | _ \<Rightarrow> None)"

text \<open>
  \<^verbatim>\<open>keyof CropSettings\<close>, the first argument of \<^verbatim>\<open>handleNumericChange\<close>.
\<close>

datatype crop_key = Key_x | Key_y | Key_width | Key_height | Key_aspectRatio

definition setKey :: "crop_key \<Rightarrow> rat \<Rightarrow> CropSettings \<Rightarrow> CropSettings" where
  "setKey key num prev =
     (case key of
        Key_x \<Rightarrow> prev\<lparr>x := num\<rparr>
      | Key_y \<Rightarrow> prev\<lparr>y := num\<rparr>
      | Key_width \<Rightarrow> prev\<lparr>width := num\<rparr>
      | Key_height \<Rightarrow> prev\<lparr>height := num\<rparr>
      | Key_aspectRatio \<Rightarrow> prev\<lparr>aspectRatio := num\<rparr>)"

text \<open>
  The commit-level part of \<^verbatim>\<open>handleNumericChange\<close> up to \<^verbatim>\<open>cropper.setData(newData)\<close>:
  the rectangle \<^verbatim>\<open>newData\<close> that is pushed into the crop surface. The argument
  \<open>value\<close> is \<^verbatim>\<open>Number(value)\<close> of the source, the number in the input field. The
  result is \<open>None\<close> when the edited field would not be finite: with finite bounds this is
  the case only when the converted value is \<^verbatim>\<open>NaN\<close>.
\<close>

definition numericNewData :: "crop_key \<Rightarrow> rat \<Rightarrow> Cropper \<Rightarrow> CropDimensions option" where
  "numericNewData key value c =
     (let num0 = min value CROP_SIZE_MAX;
          currentData = getData c;
          imageWidth = naturalWidth (getCanvasData c);
          imageHeight = naturalHeight (getCanvasData c);
          containerData = getContainerData c;
          num =
            (if key \<in> {Key_width, Key_height}
             then convertToActualSize num0
                    (if key = Key_width then imageWidth else imageHeight)
                    (if key = Key_width then containerWidth containerData
                     else containerHeight containerData)
             else Finite num0)
      in case key of
           Key_x \<Rightarrow>
             map_option (\<lambda>r. currentData\<lparr>x := r\<rparr>)
               (finite_value
                  (Math_max (Finite 0)
                     (Math_min (js_minus imageWidth (Finite (width currentData))) num)))
         | Key_y \<Rightarrow>
             map_option (\<lambda>r. currentData\<lparr>y := r\<rparr>)
               (finite_value
                  (Math_max (Finite 0)
                     (Math_min (js_minus imageHeight (Finite (height currentData))) num)))
         | Key_width \<Rightarrow>
             map_option (\<lambda>r. currentData\<lparr>width := r\<rparr>)
               (finite_value
                  (Math_max (Finite 1)
                     (Math_min (js_minus imageWidth (Finite (x currentData))) num)))
         | Key_height \<Rightarrow>
             map_option (\<lambda>r. currentData\<lparr>height := r\<rparr>)
               (finite_value
                  (Math_max (Finite 1)
                     (Math_min (js_minus imageHeight (Finite (y currentData))) num)))
         | Key_aspectRatio \<Rightarrow> Some currentData)"

text \<open>
  The rest of a commit-level edit, after \<^verbatim>\<open>cropper.setData(newData)\<close>: the rectangle
  is read back from the crop surface (\<open>c'\<close>, the surface after the push), its width and
  height are converted to display space with the extents read before the push (from
  \<open>c\<close>), and the result becomes the active settings.
\<close>

definition numericReadBack :: "Cropper \<Rightarrow> Cropper \<Rightarrow> AppState \<Rightarrow> AppState option" where
  "numericReadBack c c' st =
     (let finalData = getData c';
          imageWidth = naturalWidth (getCanvasData c);
          imageHeight = naturalHeight (getCanvasData c);
          containerData = getContainerData c
      in case (convertToDisplaySize (width finalData) imageWidth (containerWidth containerData),
               convertToDisplaySize (height finalData) imageHeight
                 (containerHeight containerData)) of
           (Finite w, Finite h) \<Rightarrow>
             Some (st\<lparr>cropper := Some c',
                      activeCropSettings :=
                        \<lparr>x = Math_round (x finalData), y = Math_round (y finalData),
                         width = Math_round w, height = Math_round h,
                         aspectRatio = aspectRatio (activeCropSettings st)\<rparr>\<rparr>)
         | _ \<Rightarrow> None)"

definition handleNumericChange ::
  "Surface \<Rightarrow> crop_key \<Rightarrow> rat \<Rightarrow> bool \<Rightarrow> AppState \<Rightarrow> AppState option" where
  "handleNumericChange surface key value isComplete st =
     (case cropper st of
        None \<Rightarrow> Some st
      | Some c \<Rightarrow>
          if \<not> isComplete
          then Some (st\<lparr>activeCropSettings :=
                           setKey key (min value CROP_SIZE_MAX) (activeCropSettings st)\<rparr>)
          else
            (case numericNewData key value c of
               None \<Rightarrow> None
             | Some newData \<Rightarrow> numericReadBack c (setData surface newData c) st))"

definition handleAspectChange :: "Surface \<Rightarrow> string \<Rightarrow> AppState \<Rightarrow> AppState option" where
  "handleAspectChange surface value st =
     (case getAspectRatioFromSelection (originalDimensions st) value of
        None \<Rightarrow> None
      | Some ratio \<Rightarrow>
          (let st1 = st\<lparr>selectedAspectRatio := value\<rparr>
           in case cropper st of
                None \<Rightarrow> Some st1
              | Some c \<Rightarrow>
                  (let currentData = getData c
                   in case (if ratio \<noteq> 0 then js_divide (width currentData) ratio
                            else Finite (height currentData)) of
                        Finite newHeight \<Rightarrow>
                          (let newCropSettings =
                                 \<lparr>x = x currentData, y = y currentData,
                                  width = width currentData, height = newHeight,
                                  aspectRatio = ratio\<rparr>;
                               c' = setData surface
                                      \<lparr>x = x newCropSettings, y = y newCropSettings,
                                       width = width newCropSettings,
                                       height = height newCropSettings\<rparr>
                                      (setAspectRatio surface ratio c);
                               st2 = st1\<lparr>cropper := Some c',
                                         activeCropSettings := newCropSettings\<rparr>
                           in Some
                                (case currentImage st of
                                   Some cur \<Rightarrow>
                                     if isPerImageCrop st
                                     then st2\<lparr>images :=
                                            updateImage cur
                                              (\<lambda>img. img\<lparr>cropSettings := Some newCropSettings\<rparr>)
                                              (images st)\<rparr>
                                     else st2\<lparr>globalCropSettings := Some newCropSettings\<rparr>
                                 | None \<Rightarrow> st2\<lparr>globalCropSettings := Some newCropSettings\<rparr>))
                      | _ \<Rightarrow> None)))"

text \<open>
  What the environment decides during one \<^verbatim>\<open>handleCrop\<close>:
  \<^item> whether \<^verbatim>\<open>canvas.toBlob\<close> delivers a blob;
  \<^item> whether \<^verbatim>\<open>window.showSaveFilePicker\<close> exists (the source tests it and never calls
    it);
  \<^item> where the inner \<^verbatim>\<open>try\<close> block throws, if it does: in the save step (creating the
    object URL, reading the canvas geometry, clicking the download link), which comes
    before \<^verbatim>\<open>setImages\<close>, or in the clean-up after \<^verbatim>\<open>setImages\<close> and
    \<^verbatim>\<open>setGlobalCropSettings\<close>;
  \<^item> whether the user dismisses the download dialog of the browser. The handler cannot
    observe this: \<^verbatim>\<open>link.click()\<close> returns at once and no picker is awaited.
\<close>

datatype try_outcome = Completes | ThrowsInSave | ThrowsInCleanup

record CropEnv =
  blobCreated :: bool
  hasSaveFilePicker :: bool
  tryBlock :: try_outcome
  dialogDismissed :: bool

definition handleCrop :: "CropEnv \<Rightarrow> AppState \<Rightarrow> AppState" where
  "handleCrop env st =
     (case (cropper st, currentImage st) of
        (Some c, Some cur) \<Rightarrow>
          if \<not> blobCreated env then st
          else
            (let d = getData c;
                 newCropSettings =
                   \<lparr>x = x d, y = y d, width = width d, height = height d,
                    aspectRatio = aspectRatio (activeCropSettings st)\<rparr>;
                 entry =
                   \<lparr>x = Math_round (x d), y = Math_round (y d),
                    width = Math_round (width d), height = Math_round (height d)\<rparr>;
                 commit =
                   (if hasSaveFilePicker env
                    then (\<lambda>img. img\<lparr>cropped := True, cropSettings := Some newCropSettings,
                                     canvasData := Some (getCanvasData c),
                                     cropHistory := cropHistory img @ [entry]\<rparr>)
                    else (\<lambda>img. img\<lparr>cropped := True, cropSettings := Some newCropSettings,
                                     cropHistory := cropHistory img @ [entry]\<rparr>));
                 settingsOnly = (\<lambda>img. img\<lparr>cropSettings := Some newCropSettings\<rparr>)
             in case tryBlock env of
                  Completes \<Rightarrow>
                    st\<lparr>images := updateImage cur commit (images st),
                       globalCropSettings := Some newCropSettings, isOpen := False\<rparr>
                | ThrowsInSave \<Rightarrow>
                    st\<lparr>globalCropSettings := Some newCropSettings,
                       images := updateImage cur settingsOnly (images st), isOpen := False\<rparr>
                | ThrowsInCleanup \<Rightarrow>
                    st\<lparr>images :=
                         updateImage cur settingsOnly (updateImage cur commit (images st)),
                       globalCropSettings := Some newCropSettings, isOpen := False\<rparr>)
      | _ \<Rightarrow> st)"

definition handleCancel :: "AppState \<Rightarrow> AppState option" where
  "handleCancel st =
     (let st1 = st\<lparr>isClosing := True\<rparr>
      in case (cropper st, currentImage st, initialCropSettings st) of
           (Some c, Some cur, Some initial) \<Rightarrow>
             (let currentData = getData c;
                  currentCanvasData = getCanvasData c;
                  stored =
                    (if saveOnCancel st then
                       (case getAspectRatioFromSelection (originalDimensions st)
                               (selectedAspectRatio st) of
                          None \<Rightarrow> None
                        | Some ratio \<Rightarrow>
                            (let newCropSettings =
                                   \<lparr>x = x currentData, y = y currentData,
                                    width = width currentData, height = height currentData,
                                    aspectRatio = ratio\<rparr>
                             in if isPerImageCrop st
                                then Some (st1\<lparr>images :=
                                       updateImage cur
                                         (\<lambda>img. img\<lparr>cropSettings := Some newCropSettings,
                                                      canvasData := Some currentCanvasData\<rparr>)
                                         (images st)\<rparr>)
                                else Some (st1\<lparr>globalCropSettings := Some newCropSettings\<rparr>)))
                     else if isPerImageCrop st
                     then Some (st1\<lparr>images :=
                            updateImage cur
                              (\<lambda>img. img\<lparr>cropSettings := None, canvasData := None\<rparr>)
                              (images st)\<rparr>)
                     else Some st1)
              in case stored of
                   None \<Rightarrow> None
                 | Some st2 \<Rightarrow>
                     (let st3 = (if \<not> saveOnCancel st
                                 then st2\<lparr>saveOnCancel := False,
                                         selectedAspectRatio := ''free''\<rparr>
                                 else st2)
                      in Some (st3\<lparr>cropper := Some (c\<lparr>destroyed := True\<rparr>),
                                  isOpen := False\<rparr>)))
         | _ \<Rightarrow> Some (st1\<lparr>isOpen := False\<rparr>))"

subsection \<open>The states the application can reach\<close>

text \<open>
  The calls of \<^verbatim>\<open>setImages\<close> are in \<^verbatim>\<open>processFiles\<close>, \<^verbatim>\<open>handleDelete\<close>,
  \<^verbatim>\<open>updateCropSettings\<close>, \<^verbatim>\<open>handleAspectChange\<close>, \<^verbatim>\<open>handleCrop\<close> and
  \<^verbatim>\<open>handleCancel\<close>. Every other event (opening the editor, the crop surface mounting, a
  numeric edit, a toggle) leaves the list of images as it is, whatever else it changes.
\<close>

inductive reachable :: "AppState \<Rightarrow> bool" where
  reach_initial: "reachable initialState"
| reach_processFiles: "reachable st \<Longrightarrow> reachable (processFiles b files st)"
| reach_handleDelete: "reachable st \<Longrightarrow> reachable (handleDelete del_id st)"
| reach_updateCropSettings:
    "reachable st \<Longrightarrow> updateCropSettings d st = Some st' \<Longrightarrow> reachable st'"
| reach_handleAspectChange:
    "reachable st \<Longrightarrow> handleAspectChange surface value st = Some st' \<Longrightarrow> reachable st'"
| reach_handleCrop: "reachable st \<Longrightarrow> reachable (handleCrop env st)"
| reach_handleCancel: "reachable st \<Longrightarrow> handleCancel st = Some st' \<Longrightarrow> reachable st'"
| reach_other: "reachable st \<Longrightarrow> images st' = images st \<Longrightarrow> reachable st'"

subsection \<open>The numeric commit as the specification words it\<close>

text \<open>
  The specification has every commit-level edit convert the entered value to image space
  before clamping. \<open>spec_numericNewData\<close> follows these words for all four fields, to be
  compared with \<open>numericNewData\<close>.
\<close>

definition spec_numericNewData :: "crop_key \<Rightarrow> rat \<Rightarrow> Cropper \<Rightarrow> CropDimensions option" where
  "spec_numericNewData key value c =
     (let num0 = min value CROP_SIZE_MAX;
          currentData = getData c;
          imageWidth = naturalWidth (getCanvasData c);
          imageHeight = naturalHeight (getCanvasData c);
          containerData = getContainerData c;
          num =
            (if key \<in> {Key_x, Key_width}
             then convertToActualSize num0 imageWidth (containerWidth containerData)
             else if key \<in> {Key_y, Key_height}
             then convertToActualSize num0 imageHeight (containerHeight containerData)
             else Finite num0)
      in case key of
           Key_x \<Rightarrow>
             map_option (\<lambda>r. currentData\<lparr>x := r\<rparr>)
               (finite_value
                  (Math_max (Finite 0)
                     (Math_min (js_minus imageWidth (Finite (width currentData))) num)))
         | Key_y \<Rightarrow>
             map_option (\<lambda>r. currentData\<lparr>y := r\<rparr>)
               (finite_value
                  (Math_max (Finite 0)
                     (Math_min (js_minus imageHeight (Finite (height currentData))) num)))
         | Key_width \<Rightarrow>
             map_option (\<lambda>r. currentData\<lparr>width := r\<rparr>)
               (finite_value
                  (Math_max (Finite 1)
                     (Math_min (js_minus imageWidth (Finite (x currentData))) num)))
         | Key_height \<Rightarrow>
             map_option (\<lambda>r. currentData\<lparr>height := r\<rparr>)
               (finite_value
                  (Math_max (Finite 1)
                     (Math_min (js_minus imageHeight (Finite (y currentData))) num)))
         | Key_aspectRatio \<Rightarrow> Some currentData)"

text \<open>
  The specification has the committed value clamped to an interval \<open>[lo, hi]\<close>:
  \<open>spec_clamp\<close> is the value of the interval nearest to \<open>v\<close>.
\<close>

definition spec_clamp :: "rat \<Rightarrow> rat \<Rightarrow> rat \<Rightarrow> rat" where
  "spec_clamp lo hi v = (if v < lo then lo else if hi < v then hi else v)"

subsection \<open>Example inputs\<close>

definition exampleFile :: File where
  "exampleFile = \<lparr>name = ''photo.png'', type = ''image/png'', size_bytes = 2048\<rparr>"

definition exampleBrowser :: Browser where
  "exampleBrowser =
     \<lparr>decode = (\<lambda>f. OnLoad 1000 800 SampleRead), now = (\<lambda>k. 1700000000000 + k)\<rparr>"

definition exampleImage :: ImageData where
  "exampleImage =
     \<lparr>image_id = ''photo.png-1700000000000'', image_file = exampleFile, cropped = False,
      cropHistory = [], cropSettings = None, canvasData = None\<rparr>"

definition exampleCropper :: Cropper where
  "exampleCropper =
     \<lparr>getData = \<lparr>x = 201 / 2, y = 50, width = 601 / 2, height = 200\<rparr>,
      getCanvasData =
        \<lparr>canvasLeft = 0, canvasTop = 0, canvasWidth = 500, canvasHeight = 400,
         naturalWidth = 1000, naturalHeight = 800\<rparr>,
      getContainerData = \<lparr>containerWidth = 500, containerHeight = 400\<rparr>,
      destroyed = False\<rparr>"

text \<open>The same crop surface with the crop box in the top left corner of the image.\<close>

definition exampleCropperAtOrigin :: Cropper where
  "exampleCropperAtOrigin =
     exampleCropper\<lparr>getData := \<lparr>x = 0, y = 0, width = 300, height = 200\<rparr>\<rparr>"

text \<open>The editor open on \<open>exampleImage\<close>, in per-image and in global mode.\<close>

definition exampleEditing :: "bool \<Rightarrow> AppState" where
  "exampleEditing perImage =
     initialState
       \<lparr>images := [exampleImage], currentImage := Some exampleImage,
        activeCropSettings :=
          \<lparr>x = 101, y = 50, width = 300, height = 200, aspectRatio = 0\<rparr>,
        isPerImageCrop := perImage,
        originalDimensions := Some \<lparr>originalWidth = 1000, originalHeight = 800\<rparr>,
        initialCropSettings :=
          Some \<lparr>x = 250, y = 200, width = 500, height = 400, aspectRatio = 0\<rparr>,
        isOpen := True, cropper := Some exampleCropper\<rparr>"



text \<open>A crop surface that keeps the rectangle it is given.\<close>

definition storingSurface :: Surface where
  "storingSurface =
     \<lparr>setData = (\<lambda>newData c. c\<lparr>getData := newData\<rparr>), setAspectRatio = (\<lambda>ratio c. c)\<rparr>"

text \<open>The editor open with the crop box in the top left corner.\<close>

definition exampleEditingAtOrigin :: AppState where
  "exampleEditingAtOrigin = (exampleEditing True)\<lparr>cropper := Some exampleCropperAtOrigin\<rparr>"

text \<open>
  An image that has been cropped before and holds stored settings and canvas geometry,
  and the editor open on it again, with global settings stored as well.
\<close>

definition exampleCroppedImage :: ImageData where
  "exampleCroppedImage =
     exampleImage
       \<lparr>cropped := True,
        cropHistory := [\<lparr>x = 10, y = 20, width = 300, height = 200\<rparr>],
        cropSettings := Some \<lparr>x = 10, y = 20, width = 300, height = 200, aspectRatio = 0\<rparr>,
        canvasData :=
          Some \<lparr>canvasLeft = 0, canvasTop = 0, canvasWidth = 500, canvasHeight = 400,
                naturalWidth = 1000, naturalHeight = 800\<rparr>\<rparr>"

definition exampleReEditing :: "bool \<Rightarrow> AppState" where
  "exampleReEditing perImage =
     (exampleEditing perImage)
       \<lparr>images := [exampleCroppedImage], currentImage := Some exampleCroppedImage,
        globalCropSettings :=
          Some \<lparr>x = 40, y = 30, width = 120, height = 90, aspectRatio = 0\<rparr>\<rparr>"

section \<open>Properties\<close>

subsection \<open>Double arithmetic\<close>

lemma round_half_even_near: "\<bar>of_int (round_half_even v) - v\<bar> \<le> 1 / 2"
proof -
  have a: "of_int \<lfloor>v\<rfloor> \<le> v" by (rule of_int_floor_le)
  have b: "v < of_int \<lfloor>v\<rfloor> + 1" by linarith
  show ?thesis
    unfolding round_half_even_def Let_def using a b by (simp add: abs_le_iff)
qed

lemma exponent_le:
  assumes "v \<noteq> 0"
  shows "2 powi exponent v \<le> \<bar>v\<bar>"
proof -
  obtain p q where pq: "quotient_of \<bar>v\<bar> = (p, q)" by (cases "quotient_of \<bar>v\<bar>")
  have q: "0 < q" using pq quotient_of_denom_pos by blast
  have v: "\<bar>v\<bar> = of_int p / of_int q" using pq by (rule quotient_of_div)
  have "0 < \<bar>v\<bar>" using assms by simp
  with v q have p: "0 < p" by (simp add: zero_less_divide_iff)
  let ?e = "bitlen p - bitlen q"
  show ?thesis
  proof (cases "2 powi ?e \<le> \<bar>v\<bar>")
    case True
    then show ?thesis by (simp add: exponent_def pq)
  next
    case False
    have bp: "1 \<le> bitlen p" and bq: "1 \<le> bitlen q"
      using p q by (simp_all add: bitlen_alt_def)
    have lo: "(2::rat) ^ nat (bitlen p - 1) \<le> of_int p"
    proof -
      have "(2::int) ^ nat (bitlen p - 1) \<le> p" using bitlen_bounds[OF p] by blast
      then have "(of_int ((2::int) ^ nat (bitlen p - 1)) :: rat) \<le> of_int p"
        by (simp only: of_int_le_iff)
      then show ?thesis by simp
    qed
    have hi: "(of_int q :: rat) \<le> 2 ^ nat (bitlen q)"
    proof -
      have "q < (2::int) ^ nat (bitlen q)" using bitlen_bounds[OF q] by blast
      then have "(of_int q :: rat) \<le> of_int ((2::int) ^ nat (bitlen q))"
        by (simp only: of_int_le_iff)
      then show ?thesis by simp
    qed
    have "(2::rat) powi (?e - 1) = 2 ^ nat (bitlen p - 1) / 2 ^ nat (bitlen q)"
    proof -
      have "?e - 1 = (bitlen p - 1) - bitlen q" by simp
      then have "(2::rat) powi (?e - 1) = 2 powi (bitlen p - 1) / 2 powi (bitlen q)"
        by (simp add: power_int_diff)
      then show ?thesis using bp bq by (simp add: power_int_def)
    qed
    also have "\<dots> \<le> of_int p / of_int q"
      using lo hi q p by (intro frac_le) simp_all
    finally have "2 powi (?e - 1) \<le> \<bar>v\<bar>" using v by simp
    with False show ?thesis by (simp add: exponent_def pq)
  qed
qed

lemma exponent_zero: "exponent 0 = - 2"
  by (simp add: exponent_def compute_bitlen power_int_minus)

text \<open>
  The rounded value is within half a unit in the last place: a relative error of
  \<open>2 ^ -53\<close>, or \<open>2 ^ -1075\<close> among the subnormal numbers.
\<close>

lemma rounded_near:
  assumes "v \<noteq> 0"
  shows "\<bar>of_int (round_half_even (v / 2 powi (max (exponent v) (- 1022) - 52)))
            * 2 powi (max (exponent v) (- 1022) - 52) - v\<bar>
         \<le> \<bar>v\<bar> / 2 ^ 53 + 2 powi (- 1075)"
proof -
  define ulp :: rat where "ulp = 2 powi (max (exponent v) (- 1022) - 52)"
  have pos: "0 < ulp" unfolding ulp_def by (simp add: zero_less_power_int)
  have "of_int (round_half_even (v / ulp)) * ulp - v
          = (of_int (round_half_even (v / ulp)) - v / ulp) * ulp"
    using pos by (simp add: field_simps)
  then have "\<bar>of_int (round_half_even (v / ulp)) * ulp - v\<bar>
          = \<bar>of_int (round_half_even (v / ulp)) - v / ulp\<bar> * ulp"
    using pos by (simp add: abs_mult)
  also have "\<dots> \<le> (1 / 2) * ulp"
    using round_half_even_near[of "v / ulp"] pos by (intro mult_right_mono) simp_all
  finally have half: "\<bar>of_int (round_half_even (v / ulp)) * ulp - v\<bar> \<le> ulp / 2" by simp
  have "ulp / 2 \<le> \<bar>v\<bar> / 2 ^ 53 + 2 powi (- 1075)"
  proof (cases "- 1022 \<le> exponent v")
    case True
    then have "ulp = 2 powi (exponent v + (- 52))"
      unfolding ulp_def by (simp add: max_def)
    also have "\<dots> = 2 powi exponent v * 2 powi (- 52)"
      by (rule power_int_add) simp
    also have "\<dots> \<le> \<bar>v\<bar> * 2 powi (- 52)"
      using exponent_le[OF assms] by (intro mult_right_mono) (simp_all add: power_int_minus)
    finally have "ulp / 2 \<le> \<bar>v\<bar> * 2 powi (- 52) / 2" by simp
    also have "\<dots> = \<bar>v\<bar> / 2 ^ 53" by (simp add: power_int_minus field_simps)
    also have "\<dots> \<le> \<bar>v\<bar> / 2 ^ 53 + 2 powi (- 1075)"
      by (simp add: zero_le_power_int)
    finally show ?thesis .
  next
    case False
    then have "ulp = 2 powi (- 1074)" unfolding ulp_def by (simp add: max_def)
    then have "ulp / 2 = 2 powi (- 1074) * 2 powi (- 1)" by (simp add: power_int_minus)
    also have "\<dots> = 2 powi (- 1075)" by (simp flip: power_int_add)
    finally show ?thesis by simp
  qed
  with half show ?thesis unfolding ulp_def by linarith
qed

lemma fl64_error:
  assumes "fl64 v = Finite w"
  shows "\<bar>w - v\<bar> \<le> \<bar>v\<bar> / 2 ^ 53 + 2 powi (- 1075)"
proof (cases "v = 0")
  case True
  with assms show ?thesis by (simp add: fl64_def zero_le_power_int)
next
  case False
  with assms have "w = of_int (round_half_even (v / 2 powi (max (exponent v) (- 1022) - 52)))
            * 2 powi (max (exponent v) (- 1022) - 52)"
    by (simp add: fl64_def Let_def split: if_splits)
  with rounded_near[OF False] show ?thesis by simp
qed

lemma fl64_finite:
  assumes "\<bar>v\<bar> \<le> 2 ^ 1022"
  shows "\<exists>w. fl64 v = Finite w"
proof (cases "v = 0")
  case True
  then show ?thesis by (simp add: fl64_def)
next
  case False
  define r :: rat where
    "r = of_int (round_half_even (v / 2 powi (max (exponent v) (- 1022) - 52)))
            * 2 powi (max (exponent v) (- 1022) - 52)"
  have near: "\<bar>r - v\<bar> \<le> \<bar>v\<bar> / 2 ^ 53 + 2 powi (- 1075)"
    unfolding r_def by (rule rounded_near[OF False])
  have "(2::rat) powi (- 1075) \<le> 2 powi 0"
    by (intro power_int_increasing) simp_all
  then have tiny: "(2::rat) powi (- 1075) \<le> 1" by simp
  have "\<bar>v\<bar> / 2 ^ 53 \<le> \<bar>v\<bar>" by (simp add: field_simps)
  with near tiny have "\<bar>r\<bar> \<le> 2 * \<bar>v\<bar> + 1" by linarith
  also have "\<dots> \<le> 2 * 2 ^ 1022 + 1" using assms by simp
  also have "\<dots> < (2::rat) ^ 1024" by simp
  finally have small: "\<bar>r\<bar> < 2 powi 1024" by simp
  have "\<not> 1024 \<le> exponent r"
  proof (cases "r = 0")
    case True
    then show ?thesis by (simp add: exponent_zero)
  next
    case False
    show ?thesis
    proof
      assume "1024 \<le> exponent r"
      then have "(2::rat) powi 1024 \<le> 2 powi exponent r"
        by (intro power_int_increasing) simp_all
      with exponent_le[OF False] small show False by linarith
    qed
  qed
  then show ?thesis using \<open>v \<noteq> 0\<close> by (simp add: fl64_def Let_def r_def)
qed

lemma fl64_near:
  assumes "\<bar>v\<bar> \<le> b" and "b \<le> 2 ^ 1022"
  shows "\<exists>w. fl64 v = Finite w \<and> \<bar>w - v\<bar> \<le> (b + 1) / 2 ^ 53"
proof -
  from assms have "\<bar>v\<bar> \<le> 2 ^ 1022" by linarith
  then obtain w where w: "fl64 v = Finite w" using fl64_finite by blast
  have "(2::rat) powi (- 1075) \<le> 2 powi (- 53)"
    by (intro power_int_increasing) simp_all
  then have tiny: "(2::rat) powi (- 1075) \<le> 1 / 2 ^ 53" by (simp add: power_int_minus field_simps)
  have "\<bar>v\<bar> / 2 ^ 53 \<le> b / 2 ^ 53" using assms(1) by (simp add: divide_right_mono)
  with fl64_error[OF w] tiny have "\<bar>w - v\<bar> \<le> b / 2 ^ 53 + 1 / 2 ^ 53" by linarith
  then have "\<bar>w - v\<bar> \<le> (b + 1) / 2 ^ 53" by (simp add: add_divide_distrib)
  with w show ?thesis by blast
qed

text \<open>The model on two conversions where rounding to doubles decides the result.\<close>

lemma double_rounding_examples:
  "fl64 (7 / 10) = Finite (3152519739159347 / 4503599627370496)"
  "convertToDisplaySize 7 10 45 = Finite 31"
  "convertToActualSize 58 100 400 = Finite 14"
  by code_simp+

subsection \<open>Crop coordinate engine\<close>

lemma Math_round_near: "\<bar>Math_round v - v\<bar> \<le> 1 / 2"
proof -
  have "of_int \<lfloor>v + 1 / 2\<rfloor> \<le> v + 1 / 2" by (rule of_int_floor_le)
  moreover have "v + 1 / 2 < of_int \<lfloor>v + 1 / 2\<rfloor> + 1" by linarith
  ultimately show ?thesis unfolding Math_round_def by linarith
qed

lemma Math_round_integer: "Math_round v \<in> \<int>"
  by (simp add: Math_round_def)

lemma integers_within_two:
  fixes a v :: rat
  assumes "a \<in> \<int>" and "v \<in> \<int>" and "\<bar>a - v\<bar> < 2"
  shows "\<bar>a - v\<bar> \<le> 1"
proof -
  from assms(1,2) obtain i j :: int where a: "a = of_int i" and v: "v = of_int j"
    by (auto elim!: Ints_cases)
  from assms(3) have "\<bar>(of_int (i - j) :: rat)\<bar> < 2" by (simp add: a v)
  then have "\<bar>i - j\<bar> < 2" by (simp only: of_int_abs [symmetric] of_int_less_numeral_iff)
  then have "\<bar>i - j\<bar> \<le> 1" by linarith
  then have "\<bar>(of_int (i - j) :: rat)\<bar> \<le> 1"
    by (simp only: of_int_abs [symmetric] of_int_le_1_iff)
  then show ?thesis by (simp add: a v)
qed

text \<open>
  The error analysis of the round trip, with \<open>u = 2 ^ -53\<close>. The quotient \<open>v / O\<close>
  is off by at most \<open>2 u\<close>. A container below a quarter of a pixel makes the display
  value 0, and 0 comes back. Otherwise the product with \<open>C\<close> is off by at most
  \<open>8 u C\<close> in all and the display value \<open>d\<close> by at most \<open>1/2 + 8 u C\<close>; on the way
  back the quotient \<open>d / C\<close> is off by at most \<open>5 u\<close> and the product with \<open>O\<close> by at
  most \<open>(10 O + 1) u\<close> in all.
\<close>

lemma round_trip_drift:
  fixes v original container :: rat
  assumes O1: "0 < original" and O2: "original \<le> 2 ^ 1000"
    and C1: "0 < container" and C2: "container \<le> 2 ^ 1000"
    and v0: "0 \<le> v" and v1: "v \<le> original"
  shows "\<exists>d a. convertToDisplaySize v original container = Finite d
           \<and> convertToActualSize d original container = Finite a
           \<and> a \<in> \<int>
           \<and> \<bar>a - v\<bar> \<le> 1 / 2 + original / (2 * container) + (original + 1) / 2 ^ 48"
proof -
  define u :: rat where "u = 1 / 2 ^ 53"
  define uc where "uc = u * container"
  define uo where "uo = u * original"
  define half where "half = original / (2 * container)"
  have u: "0 < u" "u \<le> 1 / 64" by (simp_all add: u_def)
  have uo: "0 \<le> uo" unfolding uo_def using u O1 by simp
  have half: "0 \<le> half" unfolding half_def using O1 C1 by simp
  have room: "2 * container \<le> 2 ^ 1022" "5 * original \<le> 2 ^ 1022"
    using C2 O2 by simp_all
  have near: "\<exists>w. fl64 t = Finite w \<and> \<bar>w - t\<bar> \<le> (b + 1) * u"
    if "\<bar>t\<bar> \<le> b" and "b \<le> 2 ^ 1022" for t b
    using fl64_near[OF that] by (simp add: u_def)
  have slack: "18 * uo + u \<le> (original + 1) / 2 ^ 48"
    using O1 by (simp add: uo_def u_def field_simps)

  define x1 where "x1 = v / original"
  have x1: "0 \<le> x1" "x1 \<le> 1" unfolding x1_def using O1 v0 v1 by simp_all
  then have "\<bar>x1\<bar> \<le> 1" by simp
  from near[OF this] obtain y1 where y1: "fl64 x1 = Finite y1" and e1: "\<bar>y1 - x1\<bar> \<le> 2 * u"
    by auto
  have q1: "js_divide v original = Finite y1"
    using O1 y1 by (simp add: js_divide_def x1_def)
  have y1b: "\<bar>y1\<bar> \<le> 33 / 32" using x1 e1 u by linarith

  define x2 where "x2 = y1 * container"
  define t where "t = v * container / original"
  have x2eq: "\<bar>x2\<bar> = \<bar>y1\<bar> * container" unfolding x2_def using C1 by (simp add: abs_mult)
  have x2b: "\<bar>x2\<bar> \<le> 2 * container"
  proof -
    have "\<bar>y1\<bar> * container \<le> 2 * container"
      using y1b C1 by (intro mult_right_mono) simp_all
    with x2eq show ?thesis by simp
  qed
  from near[OF x2b room(1)] obtain y2 where y2: "fl64 x2 = Finite y2"
    and e2: "\<bar>y2 - x2\<bar> \<le> (2 * container + 1) * u" by auto
  define d where "d = Math_round y2"
  have cd: "convertToDisplaySize v original container = Finite d"
    using y2 by (simp add: convertToDisplaySize_def q1 js_times_def x2_def
        Math_round_number_def d_def)
  show ?thesis
  proof (cases "container < 1 / 4")
    case True
    have "\<bar>y1\<bar> * container \<le> (33 / 32) * container"
      using y1b C1 by (intro mult_right_mono) simp_all
    with x2eq True have "\<bar>x2\<bar> \<le> 33 / 128" by linarith
    moreover have "(2 * container + 1) * u \<le> (3 / 2) * u"
      using True u by (intro mult_right_mono) simp_all
    ultimately have "\<bar>y2\<bar> < 1 / 2" using e2 u by linarith
    then have "0 \<le> y2 + 1 / 2" and "y2 + 1 / 2 < 1" by linarith+
    then have "\<lfloor>y2 + 1 / 2\<rfloor> = 0" by (simp add: floor_eq_iff)
    then have d0: "d = 0" by (simp add: d_def Math_round_def)
    have zero: "Math_round 0 = 0" by code_simp
    have ca: "convertToActualSize d original container = Finite 0"
      using C1 by (simp add: d0 convertToActualSize_def js_divide_def js_times_def fl64_def
          Math_round_number_def zero)
    have "original * (2 * container) \<le> original * (1 / 2)"
      using True O1 by (intro mult_left_mono) simp_all
    then have "original \<le> half"
      unfolding half_def using C1 O1 by (simp add: field_simps)
    moreover have "0 \<le> (original + 1) / 2 ^ 48" using O1 by simp
    ultimately have "\<bar>0 - v\<bar> \<le> 1 / 2 + half + (original + 1) / 2 ^ 48"
      using v0 v1 by linarith
    then show ?thesis using cd ca unfolding half_def by (intro exI[of _ d] exI[of _ 0]) simp
  next
    case False
    have uc: "u \<le> 4 * uc" "uc \<le> container / 64"
      unfolding uc_def using u False C1 by (simp_all add: mult_right_mono)
    have e2': "\<bar>y2 - x2\<bar> \<le> 6 * uc"
    proof -
      have "(2 * container + 1) * u = 2 * uc + u" by (simp add: uc_def algebra_simps)
      with e2 uc show ?thesis by linarith
    qed
    have s2: "\<bar>x2 - t\<bar> \<le> 2 * uc"
    proof -
      have "x2 - t = (y1 - x1) * container"
        unfolding x2_def t_def x1_def by (simp add: algebra_simps)
      then have "\<bar>x2 - t\<bar> = \<bar>y1 - x1\<bar> * container"
        using C1 by (simp add: abs_mult)
      also have "\<dots> \<le> (2 * u) * container" using e1 C1 by (intro mult_right_mono) simp_all
      finally show ?thesis by (simp add: uc_def)
    qed
    have derr: "\<bar>d - t\<bar> \<le> 1 / 2 + 8 * uc"
      using Math_round_near[of y2] e2' s2 unfolding d_def by linarith
    have target: "0 \<le> t" "t \<le> container"
    proof -
      show "0 \<le> t" unfolding t_def using v0 C1 O1 by simp
      have "v * container \<le> original * container"
        using v1 C1 by (intro mult_right_mono) simp_all
      then show "t \<le> container"
        unfolding t_def using O1 by (simp add: divide_le_eq mult.commute)
    qed
    have db: "\<bar>d\<bar> \<le> 4 * container" using derr target uc False by linarith

    define x3 where "x3 = d / container"
    have x3b: "\<bar>x3\<bar> \<le> 4" unfolding x3_def using db C1 by (simp add: divide_le_eq)
    have "(4::rat) \<le> 2 ^ 1022" by simp
    from near[OF x3b this] obtain y3 where y3: "fl64 x3 = Finite y3"
      and e3: "\<bar>y3 - x3\<bar> \<le> 5 * u" by auto
    have q3: "js_divide d container = Finite y3"
      using C1 y3 by (simp add: js_divide_def x3_def)
    have y3b: "\<bar>y3\<bar> \<le> 5" using x3b e3 u by linarith

    define x4 where "x4 = y3 * original"
    define bk where "bk = d * original / container"
    have x4b: "\<bar>x4\<bar> \<le> 5 * original"
    proof -
      have "\<bar>x4\<bar> = \<bar>y3\<bar> * original" unfolding x4_def using O1 by (simp add: abs_mult)
      also have "\<dots> \<le> 5 * original" using y3b O1 by (intro mult_right_mono) simp_all
      finally show ?thesis .
    qed
    from near[OF x4b room(2)] obtain y4 where y4: "fl64 x4 = Finite y4"
      and e4: "\<bar>y4 - x4\<bar> \<le> (5 * original + 1) * u" by auto
    have e4': "\<bar>y4 - x4\<bar> \<le> 5 * uo + u"
    proof -
      have "(5 * original + 1) * u = 5 * uo + u" by (simp add: uo_def algebra_simps)
      with e4 show ?thesis by linarith
    qed
    have s4: "\<bar>x4 - bk\<bar> \<le> 5 * uo"
    proof -
      have "x4 - bk = (y3 - x3) * original"
        unfolding x4_def bk_def x3_def by (simp add: algebra_simps)
      then have "\<bar>x4 - bk\<bar> = \<bar>y3 - x3\<bar> * original"
        using O1 by (simp add: abs_mult)
      also have "\<dots> \<le> (5 * u) * original" using e3 O1 by (intro mult_right_mono) simp_all
      finally show ?thesis by (simp add: uo_def)
    qed
    define a where "a = Math_round y4"
    have ca: "convertToActualSize d original container = Finite a"
      using y4 by (simp add: convertToActualSize_def q3 js_times_def x4_def
          Math_round_number_def a_def)
    have scaled: "\<bar>bk - v\<bar> \<le> half + 8 * uo"
    proof -
      have "bk - v = (d - t) * (original / container)"
        unfolding bk_def t_def using O1 C1 by (simp add: field_simps)
      then have "\<bar>bk - v\<bar> = \<bar>d - t\<bar> * (original / container)"
        using O1 C1 by (simp add: abs_mult)
      also have "\<dots> \<le> (1 / 2 + 8 * uc) * (original / container)"
        using derr O1 C1 by (intro mult_right_mono) simp_all
      also have "\<dots> = half + 8 * uo"
        using C1 by (simp add: half_def uc_def uo_def field_simps)
      finally show ?thesis .
    qed
    have "\<bar>a - v\<bar> \<le> 1 / 2 + half + (18 * uo + u)"
      using Math_round_near[of y4] e4' s4 scaled unfolding a_def by linarith
    with slack have "\<bar>a - v\<bar> \<le> 1 / 2 + original / (2 * container) + (original + 1) / 2 ^ 48"
      unfolding half_def by linarith
    moreover have "a \<in> \<int>" unfolding a_def by (rule Math_round_integer)
    ultimately show ?thesis using cd ca by blast
  qed
qed

text \<open>
  Claim C3, as the code has it. For positive extents (up to \<open>2 ^ 1000\<close>, so that no
  product overflows to \<^verbatim>\<open>Infinity\<close>) and a value \<open>v\<close> in range,
  \<open>0 \<le> v \<le> original\<close>, both conversions are finite and the round trip
  \<open>toActual (toDisplay v)\<close> differs from \<open>v\<close> by at most
  \<open>1/2 + original / (2 * container) + (original + 1) / 2 ^ 48\<close>: half a unit from the
  rounding back, the half unit of the rounding forth scaled by \<open>original / container\<close>,
  and a last term for the rounding of the double arithmetic. For an integer \<open>v\<close>, a
  container at least as large as the original extent, and an original extent up to
  \<open>2 ^ 47\<close>, the drift is at most one unit.
\<close>

theorem round_trip_drift_bound:
  fixes v original container :: rat
  assumes "0 < original" and "original \<le> 2 ^ 1000"
    and "0 < container" and "container \<le> 2 ^ 1000"
    and "0 \<le> v" and "v \<le> original"
  shows "\<exists>d a. convertToDisplaySize v original container = Finite d
           \<and> convertToActualSize d original container = Finite a
           \<and> \<bar>a - v\<bar> \<le> 1 / 2 + original / (2 * container) + (original + 1) / 2 ^ 48
           \<and> (v \<in> \<int> \<and> original \<le> container \<and> original \<le> 2 ^ 47 \<longrightarrow> \<bar>a - v\<bar> \<le> 1)"
proof -
  from round_trip_drift[OF assms] obtain d a where
    cd: "convertToDisplaySize v original container = Finite d"
    and ca: "convertToActualSize d original container = Finite a"
    and int: "a \<in> \<int>"
    and bound: "\<bar>a - v\<bar> \<le> 1 / 2 + original / (2 * container) + (original + 1) / 2 ^ 48"
    by blast
  have "\<bar>a - v\<bar> \<le> 1" if "v \<in> \<int>" and "original \<le> container" and "original \<le> 2 ^ 47"
  proof -
    have "original / (2 * container) \<le> 1 / 2"
      using that(2) assms(1,3) by (simp add: field_simps)
    moreover have "(original + 1) / 2 ^ 48 < 1" using that(3) by (simp add: field_simps)
    ultimately have "\<bar>a - v\<bar> < 2" using bound by linarith
    with int that(1) show ?thesis by (rule integers_within_two)
  qed
  with cd ca bound show ?thesis by blast
qed

lemma round_trip_example:
  "convertToDisplaySize 333 1000 1500 = Finite 500"
  "convertToActualSize 500 1000 1500 = Finite 333"
  by code_simp+

theorem round_trip_drift_bound_witness:
  "(0::rat) < 1000 \<and> (1000::rat) \<le> 2 ^ 1000 \<and> (0::rat) < 1500 \<and> (1500::rat) \<le> 2 ^ 1000
   \<and> (0::rat) \<le> 333 \<and> (333::rat) \<le> 1000
   \<and> (333::rat) \<in> \<int> \<and> (1000::rat) \<le> 1500 \<and> (1000::rat) \<le> 2 ^ 47
   \<and> convertToDisplaySize 333 1000 1500 = Finite 500
   \<and> convertToActualSize 500 1000 1500 = Finite 333
   \<and> \<bar>(333::rat) - 333\<bar> \<le> 1 / 2 + 1000 / (2 * 1500) + (1000 + 1) / 2 ^ 48
   \<and> \<bar>(333::rat) - 333\<bar> \<le> 1"
  using round_trip_drift_bound [of 1000 1500 333]
  by (simp add: round_trip_example)

text \<open>
  Claim C3 as stated fails when the container is smaller than the image: with an original
  extent of 1024, a container extent of 8 and the in-range value 500, the display value is
  4 and the way back gives 512, twelve units from 500. (All the quotients and products
  here are exact in doubles.)
\<close>

theorem round_trip_exceeds_one:
  "(0::rat) < 1024 \<and> (0::rat) < 8 \<and> (0::rat) \<le> 500 \<and> (500::rat) \<le> 1024
   \<and> convertToDisplaySize 500 1024 8 = Finite 4
   \<and> convertToActualSize 4 1024 8 = Finite 512
   \<and> \<not> \<bar>(512::rat) - 500\<bar> \<le> 1"
  by code_simp

lemma tolerance_literal:
  "fl64 (1 / 10000) = Finite (7378697629483821 / 73786976294838206464)"
  by code_simp

text \<open>
  Claim C9. For the free and the square selector, and original dimensions with both
  extents in \<open>[16, 10000]\<close>, mapping the selector to its ratio and the ratio back gives
  the selector again: \<open>1\<close> is matched exactly to the square selector, and \<open>0\<close> is
  further than \<open>1e-4\<close> from every original ratio, which is at least \<open>16 / 10000\<close>
  before it is rounded to a double. The state \<open>originalDimensions\<close> that the first
  mapping reads plays no part.
\<close>

theorem aspect_selector_round_trip:
  assumes "s = ASPECT_FREE \<or> s = ASPECT_SQUARE"
    and "16 \<le> originalWidth dims" and "originalWidth dims \<le> 10000"
    and "16 \<le> originalHeight dims" and "originalHeight dims \<le> 10000"
  shows "\<exists>r. getAspectRatioFromSelection od s = Some r
             \<and> getSelectionFromAspectRatio r (Some dims) = s"
proof -
  define q where "q = originalWidth dims / originalHeight dims"
  have h: "0 < originalHeight dims" using assms by linarith
  have ql: "16 / 10000 \<le> q" and qu: "q \<le> 625"
    unfolding q_def using assms h by (simp_all add: field_simps)
  then have "\<bar>q\<bar> \<le> 625" by simp
  moreover have "(625::rat) \<le> 2 ^ 1022" by simp
  ultimately obtain y where y: "fl64 q = Finite y" and ey: "\<bar>y - q\<bar> \<le> (625 + 1) / 2 ^ 53"
    using fl64_near by blast
  have quot: "js_divide (originalWidth dims) (originalHeight dims) = Finite y"
    using h y by (simp add: js_divide_def q_def)
  have "(625 + 1) / 2 ^ 53 \<le> (1::rat) / 10000" by simp
  with ey have ey': "\<bar>y - q\<bar> \<le> 1 / 10000" by linarith
  have yl: "15 / 10000 \<le> y" and yu: "\<bar>0 - y\<bar> \<le> 626" using ey' ql qu by linarith+
  have "(626::rat) \<le> 2 ^ 1022" by simp
  with yu obtain z where z: "fl64 (0 - y) = Finite z"
    and ez: "\<bar>z - (0 - y)\<bar> \<le> (626 + 1) / 2 ^ 53"
    using fl64_near by blast
  have "(626 + 1) / 2 ^ 53 \<le> (1::rat) / 10000" by simp
  with ez have ez': "\<bar>z - (0 - y)\<bar> \<le> 1 / 10000" by linarith
  have zl: "14 / 10000 \<le> \<bar>z\<bar>" using ez' yl by linarith
  have far: "\<not> js_less (Math_abs (js_minus 0
                 (js_divide (originalWidth dims) (originalHeight dims)))) (fl64 (1 / 10000))"
  proof -
    have z': "fl64 (- y) = Finite z" using z by simp
    have "(7378697629483821 / 73786976294838206464 :: rat) \<le> 14 / 10000" by simp
    with zl have "\<not> \<bar>z\<bar> < 7378697629483821 / 73786976294838206464" by linarith
    then show ?thesis
      by (simp add: quot js_minus_def z' Math_abs_def tolerance_literal)
  qed
  from assms(1) show ?thesis
  proof
    assume "s = ASPECT_FREE"
    then show ?thesis using far
      by (simp add: getAspectRatioFromSelection_def getSelectionFromAspectRatio_def
          ASPECT_FREE_def ASPECT_ORIGINAL_def ASPECT_SQUARE_def)
  next
    assume "s = ASPECT_SQUARE"
    then show ?thesis
      by (simp add: getAspectRatioFromSelection_def getSelectionFromAspectRatio_def
          ASPECT_FREE_def ASPECT_ORIGINAL_def ASPECT_SQUARE_def)
  qed
qed

theorem aspect_selector_round_trip_witness:
  "(16::rat) \<le> 16 \<and> (16::rat) \<le> 10000 \<and> (10000::rat) \<le> 10000
   \<and> (\<exists>r. getAspectRatioFromSelection None ASPECT_FREE = Some r
          \<and> getSelectionFromAspectRatio r
                (Some \<lparr>originalWidth = 16, originalHeight = 10000\<rparr>) = ASPECT_FREE)
   \<and> (\<exists>r. getAspectRatioFromSelection None ASPECT_SQUARE = Some r
          \<and> getSelectionFromAspectRatio r
                (Some \<lparr>originalWidth = 16, originalHeight = 10000\<rparr>) = ASPECT_SQUARE)"
  using aspect_selector_round_trip
          [of ASPECT_FREE "\<lparr>originalWidth = 16, originalHeight = 10000\<rparr>" None]
        aspect_selector_round_trip
          [of ASPECT_SQUARE "\<lparr>originalWidth = 16, originalHeight = 10000\<rparr>" None]
  by simp

subsection \<open>Ingestion pipeline\<close>

lemma lastIndexOf_absent: "c \<notin> set s \<Longrightarrow> lastIndexOf s c = - 1"
  by (induction s) (auto simp: Let_def)

lemma getFileExtension_no_dot:
  assumes "CHR ''.'' \<notin> set s" and "length s < 2 ^ 32"
  shows "getFileExtension s = []"
proof -
  have "unat (word_of_int (- 1 - 1) :: 32 word) = 4294967294"
    by simp
  with assms show ?thesis
    by (simp add: getFileExtension_def lastIndexOf_absent toLowerCase_def)
qed

lemma dot_not_accepted:
  "map_of ACCEPTED_TYPES t = Some exts \<Longrightarrow> ''.'' \<notin> set exts"
  by (auto simp: ACCEPTED_TYPES_def split: if_splits)

lemma filterImageFiles_kept:
  "fst (filterImageFiles fs) = filter (\<lambda>f. fst (imageFileFilter f)) fs"
  by (induction fs) (simp_all add: split_beta Let_def)

text \<open>
  Claim C10. A file whose name has no dot (and fits the 32-bit index arithmetic of
  \<open>getFileExtension\<close>, as every string of a browser does) has the empty extension; the
  type filter never keeps it, in no batch; and when its declared type is accepted and its
  size is within the limit, it is the extension stage that rejects it, with the mismatch
  notice for its name and type.
\<close>

theorem no_dot_rejected_by_extension:
  assumes "CHR ''.'' \<notin> set (name f)" and "length (name f) < 2 ^ 32"
  shows "getFileExtension (name f) = []
       \<and> \<not> fst (imageFileFilter f)
       \<and> f \<notin> set (fst (filterImageFiles files))
       \<and> (type f \<in> set (map fst ACCEPTED_TYPES) \<and> size_bytes f \<le> MAX_FILE_SIZE
            \<longrightarrow> imageFileFilter f = (False, [MimeMismatch (name f) (type f)]))"
proof -
  have ext: "getFileExtension (name f) = []"
    using assms by (rule getFileExtension_no_dot)
  have acc: "''.'' \<notin> set (case map_of ACCEPTED_TYPES (type f) of
                              Some exts \<Rightarrow> exts | None \<Rightarrow> [])"
  proof (cases "map_of ACCEPTED_TYPES (type f)")
    case None
    then show ?thesis by simp
  next
    case (Some exts)
    then show ?thesis using dot_not_accepted[OF Some] by simp
  qed
  have rej: "\<not> fst (imageFileFilter f)"
    using ext acc by (simp add: imageFileFilter_def Let_def)
  have stage: "type f \<in> set (map fst ACCEPTED_TYPES) \<and> size_bytes f \<le> MAX_FILE_SIZE
            \<longrightarrow> imageFileFilter f = (False, [MimeMismatch (name f) (type f)])"
    using ext acc by (simp add: imageFileFilter_def Let_def)
  from rej have "f \<notin> set (fst (filterImageFiles files))"
    by (simp add: filterImageFiles_kept)
  with ext rej stage show ?thesis by blast
qed

theorem no_dot_rejected_by_extension_witness:
  "CHR ''.'' \<notin> set ''README'' \<and> length ''README'' < (2::nat) ^ 32
   \<and> ''image/png'' \<in> set (map fst ACCEPTED_TYPES) \<and> (2048::nat) \<le> MAX_FILE_SIZE
   \<and> imageFileFilter \<lparr>name = ''README'', type = ''image/png'', size_bytes = 2048\<rparr>
       = (False, [MimeMismatch ''README'' ''image/png''])"
  using no_dot_rejected_by_extension
          [of "\<lparr>name = ''README'', type = ''image/png'', size_bytes = 2048\<rparr>" "[]"]
  by (simp add: ACCEPTED_TYPES_def MAX_FILE_SIZE_def)

lemma admitLoop_appends:
  "\<exists>new. fst (admitLoop b k fs acc) = fst acc @ new \<and> length new \<le> length fs"
proof (induction b k fs acc rule: admitLoop.induct)
  case (1 b k acc)
  show ?case by simp
next
  case (2 b k f fs imgs invalidSizeCount invalidImageCount)
  show ?case
  proof (cases "validateImage (decode b) f")
    case Valid
    from "2.IH"(1)[OF Valid] obtain new where
      "fst (admitLoop b (Suc k) fs (imgs @ [newImage b k f], invalidSizeCount, invalidImageCount))
       = (imgs @ [newImage b k f]) @ new"
      and "length new \<le> length fs"
      by auto
    then show ?thesis using Valid
      by (intro exI[of _ "newImage b k f # new"]) simp
  next
    case (Invalid e)
    show ?thesis
    proof (cases "e = too_small \<or> e = too_large")
      case True
      from "2.IH"(2)[OF Invalid True] obtain new where
        "fst (admitLoop b (Suc k) fs (imgs, invalidSizeCount + 1, invalidImageCount)) = imgs @ new"
        "length new \<le> length fs" by auto
      then show ?thesis using Invalid True by (intro exI[of _ new]) simp
    next
      case False
      from "2.IH"(3)[OF Invalid False] obtain new where
        "fst (admitLoop b (Suc k) fs (imgs, invalidSizeCount, invalidImageCount + 1)) = imgs @ new"
        "length new \<le> length fs" by auto
      then show ?thesis using Invalid False by (intro exI[of _ new]) simp
    qed
  qed
qed

lemma finishBatch_images: "images (finishBatch messages st) = images st"
  by (simp add: finishBatch_def)

text \<open>
  A batch only appends, and what it appends fits the free slots.
\<close>

lemma processBatch_images:
  "\<exists>new. images (processBatch b files st) = images st @ new
         \<and> length (images st) + length new \<le> max 10 (length (images st))"
proof -
  let ?slots = "nat (max 0 (10 - int (length (images st))))"
  obtain imageFiles pushed where ff: "filterImageFiles files = (imageFiles, pushed)"
    by (cases "filterImageFiles files")
  let ?nd = "filter (\<lambda>f. name f \<notin> set (existingFilenames (images st))) imageFiles"
  obtain imgs n m where al: "admitLoop b 0 (take ?slots ?nd) (images st, 0, 0) = (imgs, n, m)"
    by (cases "admitLoop b 0 (take ?slots ?nd) (images st, 0, 0)")
  from admitLoop_appends[of b 0 "take ?slots ?nd" "(images st, 0, 0)"] al
  obtain new where new: "imgs = images st @ new" "length new \<le> length (take ?slots ?nd)"
    by auto
  then have "length new \<le> ?slots" by simp
  then have fits: "length (images st) + length new \<le> max 10 (length (images st))" by arith
  define P where "P = (\<lambda>l. \<exists>new. l = images st @ new
         \<and> length (images st) + length new \<le> max 10 (length (images st)))"
  from new(1) fits have good: "P imgs" unfolding P_def by blast
  have same: "P (images st)" unfolding P_def by (intro exI[of _ "[]"]) simp
  have "P (images (processBatch b files st))"
    unfolding processBatch_def Let_def ff al split_conv
    using good same by (simp add: finishBatch_images)
  then show ?thesis unfolding P_def .
qed

lemma processFiles_images:
  "\<exists>new. images (processFiles b files st) = images st @ new
         \<and> length (images st) + length new \<le> max 10 (length (images st))"
proof -
  have same: "\<exists>new. images st = images st @ new
         \<and> length (images st) + length new \<le> max 10 (length (images st))"
    by (intro exI[of _ "[]"]) simp
  from processBatch_images[of b files "st\<lparr>isProcessing := True, toasts := []\<rparr>"]
  have "\<exists>new. images (processBatch b files (st\<lparr>isProcessing := True, toasts := []\<rparr>))
                 = images st @ new
         \<and> length (images st) + length new \<le> max 10 (length (images st))" by simp
  with same show ?thesis unfolding processFiles_def by simp
qed

lemma length_updateImage: "length (updateImage cur f imgs) = length imgs"
  by (simp add: updateImage_def)

lemma handleCrop_length: "length (images (handleCrop env st)) = length (images st)"
  by (simp add: handleCrop_def Let_def length_updateImage
      split: option.splits try_outcome.splits)

lemma updateCropSettings_length:
  "updateCropSettings d st = Some st' \<Longrightarrow> length (images st') = length (images st)"
  by (auto simp: updateCropSettings_def Let_def length_updateImage
      split: if_splits option.splits number.splits)

lemma handleAspectChange_length:
  "handleAspectChange surface v st = Some st' \<Longrightarrow> length (images st') = length (images st)"
  by (auto simp: handleAspectChange_def Let_def length_updateImage
      split: if_splits option.splits number.splits)

lemma handleCancel_length:
  "handleCancel st = Some st' \<Longrightarrow> length (images st') = length (images st)"
  by (auto simp: handleCancel_def Let_def length_updateImage split: if_splits option.splits)

text \<open>The capacity invariant: no reachable state holds more than ten images.\<close>

lemma reachable_capacity: "reachable st \<Longrightarrow> length (images st) \<le> 10"
proof (induction rule: reachable.induct)
  case reach_initial
  show ?case by (simp add: initialState_def)
next
  case (reach_processFiles st b files)
  from processFiles_images[of b files st] obtain new where
    "images (processFiles b files st) = images st @ new"
    "length (images st) + length new \<le> max 10 (length (images st))" by blast
  with reach_processFiles.IH show ?case by simp
next
  case (reach_handleDelete st del_id)
  have "length (filter (\<lambda>img. image_id img \<noteq> del_id) (images st)) \<le> 10"
    by (rule le_trans[OF length_filter_le reach_handleDelete.IH])
  then show ?case by (simp add: handleDelete_def)
next
  case (reach_updateCropSettings st d st')
  then show ?case by (simp add: updateCropSettings_length)
next
  case (reach_handleAspectChange st surface v st')
  then show ?case by (simp add: handleAspectChange_length)
next
  case (reach_handleCrop st env)
  then show ?case by (simp add: handleCrop_length)
next
  case (reach_handleCancel st st')
  then show ?case by (simp add: handleCancel_length)
next
  case (reach_other st st')
  then show ?case by simp
qed

text \<open>
  Claim C5. In every state the application can reach, a call of \<open>processFiles\<close>, whatever
  the batch and whatever the browser reports, leaves at most ten images in the Session,
  and the images from before the call are all still there, in front and unchanged: the
  Session never shrinks by admission.
\<close>

theorem admission_capacity:
  assumes "reachable st"
  shows "length (images (processFiles b files st)) \<le> 10
       \<and> prefix (images st) (images (processFiles b files st))
       \<and> length (images st) \<le> length (images (processFiles b files st))"
proof -
  from processFiles_images[of b files st] obtain new where
    new: "images (processFiles b files st) = images st @ new"
    "length (images st) + length new \<le> max 10 (length (images st))" by blast
  from assms have "length (images st) \<le> 10" by (rule reachable_capacity)
  with new show ?thesis by simp
qed

lemma exampleFile_extension: "getFileExtension (name exampleFile) = ''png''"
  by code_simp

lemma exampleFile_kept: "imageFileFilter exampleFile = (True, [])"
  by (simp add: imageFileFilter_def exampleFile_extension)
     (simp add: exampleFile_def ACCEPTED_TYPES_def MAX_FILE_SIZE_def)

lemma exampleFile_valid: "validateImage (decode exampleBrowser) f = Valid"
  by (simp add: validateImage_def exampleBrowser_def IMAGE_SIZE_MIN_def IMAGE_SIZE_MAX_def)

lemma twelve_files:
  "replicate 12 exampleFile
     = [exampleFile, exampleFile, exampleFile, exampleFile, exampleFile, exampleFile,
        exampleFile, exampleFile, exampleFile, exampleFile, exampleFile, exampleFile]"
  by (simp add: numeral_eq_Suc)

theorem admission_capacity_witness:
  "reachable initialState
   \<and> length (images (processFiles exampleBrowser (replicate 12 exampleFile) initialState)) = 10
   \<and> toasts (processFiles exampleBrowser (replicate 12 exampleFile) initialState)
       = [LimitPartial 10 2]"
proof -
  have "length (images (processFiles exampleBrowser (replicate 12 exampleFile) initialState))
          \<le> 10"
    using admission_capacity [OF reach_initial] by blast
  moreover have
    "length (images (processFiles exampleBrowser (replicate 12 exampleFile) initialState)) = 10
     \<and> toasts (processFiles exampleBrowser (replicate 12 exampleFile) initialState)
         = [LimitPartial 10 2]"
    unfolding twelve_files
    by (simp add: processFiles_def processBatch_def exampleFile_kept exampleFile_valid
        existingFilenames_def finishBatch_def initialState_def Let_def)
  ultimately show ?thesis using reach_initial by blast
qed

text \<open>
  Claim C4 asks that of two files of one batch with the same name the second be dropped
  as a duplicate. The duplicate filter compares each candidate with the names already in
  the Session only, so both pass: dropped into the empty Session, a batch of two copies
  of \<open>photo.png\<close> adds two images of that name and raises no notice.
\<close>

theorem same_name_twice_both_admitted:
  "images (processFiles exampleBrowser [exampleFile, exampleFile] initialState)
     = [newImage exampleBrowser 0 exampleFile, newImage exampleBrowser 1 exampleFile]
   \<and> map (\<lambda>img. name (image_file img))
        (images (processFiles exampleBrowser [exampleFile, exampleFile] initialState))
     = [''photo.png'', ''photo.png'']
   \<and> toasts (processFiles exampleBrowser [exampleFile, exampleFile] initialState) = []"
proof -
  have run:
    "images (processFiles exampleBrowser [exampleFile, exampleFile] initialState)
       = [newImage exampleBrowser 0 exampleFile, newImage exampleBrowser 1 exampleFile]
     \<and> toasts (processFiles exampleBrowser [exampleFile, exampleFile] initialState) = []"
    by (simp add: processFiles_def processBatch_def exampleFile_kept exampleFile_valid
        existingFilenames_def finishBatch_def initialState_def Let_def)
  have "map (\<lambda>img. name (image_file img))
          [newImage exampleBrowser 0 exampleFile, newImage exampleBrowser 1 exampleFile]
        = [''photo.png'', ''photo.png'']"
    by (simp add: newImage_def exampleFile_def)
  with run show ?thesis by simp
qed

subsection \<open>Crop state manager: commit and cancel\<close>

lemma updateImage_nth:
  "i < length imgs \<Longrightarrow>
     updateImage cur f imgs ! i
       = (if image_id (imgs ! i) = image_id cur then f (imgs ! i) else imgs ! i)"
  by (simp add: updateImage_def)

lemma updateImage_keeps:
  assumes "\<And>img. g (f img) = g img"
  shows "map g (updateImage cur f imgs) = map g imgs"
  using assms by (simp add: updateImage_def)

lemma exampleCropper_rounded:
  "Math_round (201 / 2) = 101 \<and> Math_round 50 = 50
   \<and> Math_round (601 / 2) = 301 \<and> Math_round 200 = 200"
  by code_simp

text \<open>
  Claim C1. Take a commit with the crop surface mounted, an image open and a blob
  delivered, whose \<^verbatim>\<open>try\<close> block runs to its end: this is the case when the save
  completes, and also when the user dismisses the download dialog, which the handler cannot
  see (\<open>dialogDismissed\<close> is any value). Then the Session keeps its length; every image
  with the identifier of the open image has the rounded rectangle of the crop surface
  (integers, by \<open>Math_round_integer\<close>) appended to its \<open>cropHistory\<close>, which grows
  by exactly one entry, and is marked
  \<open>cropped\<close>; and \<open>globalCropSettings\<close> holds the committed settings, whatever the
  persistence policy \<open>isPerImageCrop\<close> is.
\<close>

theorem commit_appends_history:
  assumes "cropper st = Some c" and "currentImage st = Some cur"
    and "blobCreated env" and "tryBlock env = Completes"
  shows "length (images (handleCrop env st)) = length (images st)
       \<and> (\<forall>i < length (images st). image_id (images st ! i) = image_id cur \<longrightarrow>
            cropHistory (images (handleCrop env st) ! i)
              = cropHistory (images st ! i)
                @ [\<lparr>x = Math_round (x (getData c)), y = Math_round (y (getData c)),
                    width = Math_round (width (getData c)),
                    height = Math_round (height (getData c))\<rparr>]
            \<and> length (cropHistory (images (handleCrop env st) ! i))
                = length (cropHistory (images st ! i)) + 1
            \<and> cropped (images (handleCrop env st) ! i))
       \<and> globalCropSettings (handleCrop env st)
           = Some \<lparr>x = x (getData c), y = y (getData c), width = width (getData c),
                   height = height (getData c),
                   aspectRatio = aspectRatio (activeCropSettings st)\<rparr>"
  using assms
  by (cases "hasSaveFilePicker env")
     (simp_all add: handleCrop_def Let_def length_updateImage updateImage_nth)

theorem commit_appends_history_witness:
  "cropper (exampleEditing True) = Some exampleCropper
   \<and> currentImage (exampleEditing True) = Some exampleImage
   \<and> isPerImageCrop (exampleEditing True)
   \<and> (0::nat) < length (images (exampleEditing True))
   \<and> image_id (images (exampleEditing True) ! 0) = image_id exampleImage
   \<and> cropHistory
        (images (handleCrop \<lparr>blobCreated = True, hasSaveFilePicker = False,
                             tryBlock = Completes, dialogDismissed = True\<rparr>
                   (exampleEditing True)) ! 0)
       = [\<lparr>x = 101, y = 50, width = 301, height = 200\<rparr>]
   \<and> cropped
        (images (handleCrop \<lparr>blobCreated = True, hasSaveFilePicker = False,
                             tryBlock = Completes, dialogDismissed = True\<rparr>
                   (exampleEditing True)) ! 0)
   \<and> globalCropSettings
        (handleCrop \<lparr>blobCreated = True, hasSaveFilePicker = False,
                     tryBlock = Completes, dialogDismissed = True\<rparr>
           (exampleEditing True))
       = Some \<lparr>x = 201 / 2, y = 50, width = 601 / 2, height = 200, aspectRatio = 0\<rparr>"
proof -
  let ?env = "\<lparr>blobCreated = True, hasSaveFilePicker = False,
               tryBlock = Completes, dialogDismissed = True\<rparr>"
  have c: "cropper (exampleEditing True) = Some exampleCropper"
    and i: "currentImage (exampleEditing True) = Some exampleImage"
    and imgs: "images (exampleEditing True) = [exampleImage]"
    and pol: "isPerImageCrop (exampleEditing True)"
    and act: "aspectRatio (activeCropSettings (exampleEditing True)) = 0"
    by (simp_all add: exampleEditing_def)
  have b: "blobCreated ?env" and t: "tryBlock ?env = Completes" by simp_all
  have hist: "cropHistory exampleImage = []" by (simp add: exampleImage_def)
  have d: "getData exampleCropper = \<lparr>x = 201 / 2, y = 50, width = 601 / 2, height = 200\<rparr>"
    by (simp add: exampleCropper_def)
  from commit_appends_history [OF c i b t] show ?thesis
    by (simp add: c i imgs pol act hist d exampleCropper_rounded)
qed

text \<open>
  Claim C2. When the save step of such a commit throws (before any state update of the
  \<^verbatim>\<open>try\<close> block), no image of the Session changes its \<open>cropHistory\<close> or its
  \<open>cropped\<close> flag, while the \<open>cropSettings\<close> of every image with the identifier of the
  open image, and \<open>globalCropSettings\<close>, are set to the attempted rectangle with the
  active aspect ratio.
\<close>

theorem failed_save_keeps_history:
  assumes "cropper st = Some c" and "currentImage st = Some cur"
    and "blobCreated env" and "tryBlock env = ThrowsInSave"
  shows "map cropHistory (images (handleCrop env st)) = map cropHistory (images st)
       \<and> map cropped (images (handleCrop env st)) = map cropped (images st)
       \<and> (\<forall>i < length (images st). image_id (images st ! i) = image_id cur \<longrightarrow>
            cropSettings (images (handleCrop env st) ! i)
              = Some \<lparr>x = x (getData c), y = y (getData c), width = width (getData c),
                      height = height (getData c),
                      aspectRatio = aspectRatio (activeCropSettings st)\<rparr>)
       \<and> globalCropSettings (handleCrop env st)
           = Some \<lparr>x = x (getData c), y = y (getData c), width = width (getData c),
                   height = height (getData c),
                   aspectRatio = aspectRatio (activeCropSettings st)\<rparr>"
  using assms
  by (simp add: handleCrop_def Let_def updateImage_nth updateImage_keeps)

theorem failed_save_keeps_history_witness:
  "cropper (exampleEditing True) = Some exampleCropper
   \<and> currentImage (exampleEditing True) = Some exampleImage
   \<and> (0::nat) < length (images (exampleEditing True))
   \<and> image_id (images (exampleEditing True) ! 0) = image_id exampleImage
   \<and> map cropHistory
        (images (handleCrop \<lparr>blobCreated = True, hasSaveFilePicker = True,
                             tryBlock = ThrowsInSave, dialogDismissed = False\<rparr>
                   (exampleEditing True)))
       = [[]]
   \<and> map cropped
        (images (handleCrop \<lparr>blobCreated = True, hasSaveFilePicker = True,
                             tryBlock = ThrowsInSave, dialogDismissed = False\<rparr>
                   (exampleEditing True)))
       = [False]
   \<and> cropSettings
        (images (handleCrop \<lparr>blobCreated = True, hasSaveFilePicker = True,
                             tryBlock = ThrowsInSave, dialogDismissed = False\<rparr>
                   (exampleEditing True)) ! 0)
       = Some \<lparr>x = 201 / 2, y = 50, width = 601 / 2, height = 200, aspectRatio = 0\<rparr>
   \<and> globalCropSettings
        (handleCrop \<lparr>blobCreated = True, hasSaveFilePicker = True,
                     tryBlock = ThrowsInSave, dialogDismissed = False\<rparr>
           (exampleEditing True))
       = Some \<lparr>x = 201 / 2, y = 50, width = 601 / 2, height = 200, aspectRatio = 0\<rparr>"
proof -
  let ?env = "\<lparr>blobCreated = True, hasSaveFilePicker = True,
               tryBlock = ThrowsInSave, dialogDismissed = False\<rparr>"
  have c: "cropper (exampleEditing True) = Some exampleCropper"
    and i: "currentImage (exampleEditing True) = Some exampleImage"
    and imgs: "images (exampleEditing True) = [exampleImage]"
    and act: "aspectRatio (activeCropSettings (exampleEditing True)) = 0"
    by (simp_all add: exampleEditing_def)
  have b: "blobCreated ?env" and t: "tryBlock ?env = ThrowsInSave" by simp_all
  have img: "cropHistory exampleImage = []" "cropped exampleImage = False"
    by (simp_all add: exampleImage_def)
  have d: "getData exampleCropper = \<lparr>x = 201 / 2, y = 50, width = 601 / 2, height = 200\<rparr>"
    by (simp add: exampleCropper_def)
  from failed_save_keeps_history [OF c i b t] show ?thesis
    by (simp add: c i imgs act img d)
qed

text \<open>
  Claim C8. Cancel with \<open>saveOnCancel\<close> off, the crop surface mounted, an image open and
  initial settings present. In per-image mode every image with the identifier of the open
  image loses its stored \<open>cropSettings\<close> and \<open>canvasData\<close>. In global mode the list of
  images and \<open>globalCropSettings\<close> are what they were. In both modes no image changes
  its \<open>cropHistory\<close> or its \<open>cropped\<close> flag.
\<close>

theorem cancel_without_save:
  assumes "\<not> saveOnCancel st"
    and "cropper st = Some c" and "currentImage st = Some cur"
    and "initialCropSettings st = Some initial"
  shows "\<exists>st'. handleCancel st = Some st'
       \<and> (isPerImageCrop st \<longrightarrow>
            (\<forall>i < length (images st). image_id (images st ! i) = image_id cur \<longrightarrow>
               cropSettings (images st' ! i) = None \<and> canvasData (images st' ! i) = None))
       \<and> (\<not> isPerImageCrop st \<longrightarrow>
            images st' = images st \<and> globalCropSettings st' = globalCropSettings st)
       \<and> map cropHistory (images st') = map cropHistory (images st)
       \<and> map cropped (images st') = map cropped (images st)"
  using assms
  by (simp add: handleCancel_def Let_def updateImage_nth updateImage_keeps)

theorem cancel_without_save_witness:
  "\<not> saveOnCancel (exampleReEditing True) \<and> \<not> saveOnCancel (exampleReEditing False)
   \<and> isPerImageCrop (exampleReEditing True) \<and> \<not> isPerImageCrop (exampleReEditing False)
   \<and> (0::nat) < length (images (exampleReEditing True))
   \<and> image_id (images (exampleReEditing True) ! 0) = image_id exampleCroppedImage
   \<and> cropSettings (images (exampleReEditing True) ! 0)
       = Some \<lparr>x = 10, y = 20, width = 300, height = 200, aspectRatio = 0\<rparr>
   \<and> canvasData (images (exampleReEditing True) ! 0)
       = Some \<lparr>canvasLeft = 0, canvasTop = 0, canvasWidth = 500, canvasHeight = 400,
               naturalWidth = 1000, naturalHeight = 800\<rparr>
   \<and> (\<exists>st'. handleCancel (exampleReEditing True) = Some st'
          \<and> cropSettings (images st' ! 0) = None \<and> canvasData (images st' ! 0) = None
          \<and> map cropHistory (images st') = [[\<lparr>x = 10, y = 20, width = 300, height = 200\<rparr>]]
          \<and> map cropped (images st') = [True])
   \<and> (\<exists>st'. handleCancel (exampleReEditing False) = Some st'
          \<and> images st' = [exampleCroppedImage]
          \<and> cropSettings (images st' ! 0)
              = Some \<lparr>x = 10, y = 20, width = 300, height = 200, aspectRatio = 0\<rparr>
          \<and> globalCropSettings st'
              = Some \<lparr>x = 40, y = 30, width = 120, height = 90, aspectRatio = 0\<rparr>)"
proof -
  have s: "\<not> saveOnCancel (exampleReEditing p)"
    and c: "cropper (exampleReEditing p) = Some exampleCropper"
    and i: "currentImage (exampleReEditing p) = Some exampleCroppedImage"
    and n: "initialCropSettings (exampleReEditing p)
              = Some \<lparr>x = 250, y = 200, width = 500, height = 400, aspectRatio = 0\<rparr>"
    and imgs: "images (exampleReEditing p) = [exampleCroppedImage]"
    and pol: "isPerImageCrop (exampleReEditing p) = p"
    and glob: "globalCropSettings (exampleReEditing p)
              = Some \<lparr>x = 40, y = 30, width = 120, height = 90, aspectRatio = 0\<rparr>"
    for p
    by (simp_all add: exampleReEditing_def exampleEditing_def initialState_def)
  have img: "cropHistory exampleCroppedImage = [\<lparr>x = 10, y = 20, width = 300, height = 200\<rparr>]"
    "cropped exampleCroppedImage = True"
    "cropSettings exampleCroppedImage
       = Some \<lparr>x = 10, y = 20, width = 300, height = 200, aspectRatio = 0\<rparr>"
    "canvasData exampleCroppedImage
       = Some \<lparr>canvasLeft = 0, canvasTop = 0, canvasWidth = 500, canvasHeight = 400,
               naturalWidth = 1000, naturalHeight = 800\<rparr>"
    by (simp_all add: exampleCroppedImage_def)
  from cancel_without_save [OF s c i n, of True]
  have cleared: "\<exists>st'. handleCancel (exampleReEditing True) = Some st'
          \<and> cropSettings (images st' ! 0) = None \<and> canvasData (images st' ! 0) = None
          \<and> map cropHistory (images st') = [[\<lparr>x = 10, y = 20, width = 300, height = 200\<rparr>]]
          \<and> map cropped (images st') = [True]"
    by (simp add: imgs pol img)
  from cancel_without_save [OF s c i n, of False]
  obtain st2 where "handleCancel (exampleReEditing False) = Some st2"
    and "images st2 = [exampleCroppedImage]"
    and "globalCropSettings st2
           = Some \<lparr>x = 40, y = 30, width = 120, height = 90, aspectRatio = 0\<rparr>"
    by (auto simp: imgs pol glob)
  then have kept: "\<exists>st'. handleCancel (exampleReEditing False) = Some st'
          \<and> images st' = [exampleCroppedImage]
          \<and> cropSettings (images st' ! 0)
              = Some \<lparr>x = 10, y = 20, width = 300, height = 200, aspectRatio = 0\<rparr>
          \<and> globalCropSettings st'
              = Some \<lparr>x = 40, y = 30, width = 120, height = 90, aspectRatio = 0\<rparr>"
    by (intro exI[of _ st2]) (simp add: img)
  have "\<not> saveOnCancel (exampleReEditing True)" "\<not> saveOnCancel (exampleReEditing False)"
    "isPerImageCrop (exampleReEditing True)" "\<not> isPerImageCrop (exampleReEditing False)"
    "(0::nat) < length (images (exampleReEditing True))"
    "image_id (images (exampleReEditing True) ! 0) = image_id exampleCroppedImage"
    "cropSettings (images (exampleReEditing True) ! 0)
       = Some \<lparr>x = 10, y = 20, width = 300, height = 200, aspectRatio = 0\<rparr>"
    "canvasData (images (exampleReEditing True) ! 0)
       = Some \<lparr>canvasLeft = 0, canvasTop = 0, canvasWidth = 500, canvasHeight = 400,
               naturalWidth = 1000, naturalHeight = 800\<rparr>"
    by (simp_all add: s imgs pol img)
  with cleared kept show ?thesis by (intro conjI)
qed

subsection \<open>Crop state manager: numeric edits\<close>

text \<open>
  Claim C6, as the code has it. At a commit-level edit the entered value, capped at
  \<open>CROP_SIZE_MAX\<close>, is converted to image space for the fields \<open>width\<close> and
  \<open>height\<close>, as the specification words it, and then clamped and pushed. For the fields
  \<open>x\<close> and \<open>y\<close> there is no conversion: the entered value itself is clamped and
  pushed.
\<close>

theorem numeric_commit_conversion:
  "numericNewData Key_width v c = spec_numericNewData Key_width v c
   \<and> numericNewData Key_height v c = spec_numericNewData Key_height v c
   \<and> numericNewData Key_width v c
       = map_option (\<lambda>r. (getData c)\<lparr>width := r\<rparr>)
           (finite_value
              (Math_max (Finite 1)
                 (Math_min (js_minus (naturalWidth (getCanvasData c)) (Finite (x (getData c))))
                    (convertToActualSize (min v CROP_SIZE_MAX) (naturalWidth (getCanvasData c))
                       (containerWidth (getContainerData c))))))
   \<and> numericNewData Key_height v c
       = map_option (\<lambda>r. (getData c)\<lparr>height := r\<rparr>)
           (finite_value
              (Math_max (Finite 1)
                 (Math_min (js_minus (naturalHeight (getCanvasData c)) (Finite (y (getData c))))
                    (convertToActualSize (min v CROP_SIZE_MAX) (naturalHeight (getCanvasData c))
                       (containerHeight (getContainerData c))))))
   \<and> numericNewData Key_x v c
       = map_option (\<lambda>r. (getData c)\<lparr>x := r\<rparr>)
           (finite_value
              (Math_max (Finite 0)
                 (Math_min (js_minus (naturalWidth (getCanvasData c)) (Finite (width (getData c))))
                    (Finite (min v CROP_SIZE_MAX)))))
   \<and> numericNewData Key_y v c
       = map_option (\<lambda>r. (getData c)\<lparr>y := r\<rparr>)
           (finite_value
              (Math_max (Finite 0)
                 (Math_min (js_minus (naturalHeight (getCanvasData c)) (Finite (height (getData c))))
                    (Finite (min v CROP_SIZE_MAX)))))"
  by (simp add: numericNewData_def spec_numericNewData_def Let_def)

text \<open>
  Claim C6 as stated fails for the field \<open>x\<close>. On the example crop surface (an image
  1000 wide in a container 500 wide, the crop box 300.5 wide) an entered \<open>x\<close> of 100
  would be 200 in image space; the code pushes 100.
\<close>

theorem numeric_commit_x_not_converted:
  "convertToActualSize 100 (naturalWidth (getCanvasData exampleCropper))
     (containerWidth (getContainerData exampleCropper)) = Finite 200
   \<and> spec_numericNewData Key_x 100 exampleCropper
       = Some \<lparr>x = 200, y = 50, width = 601 / 2, height = 200\<rparr>
   \<and> numericNewData Key_x 100 exampleCropper
       = Some \<lparr>x = 100, y = 50, width = 601 / 2, height = 200\<rparr>
   \<and> numericNewData Key_x 100 exampleCropper \<noteq> spec_numericNewData Key_x 100 exampleCropper"
  by code_simp

lemma clamp_as_spec:
  "max lo (min hi v) = (if lo \<le> hi then spec_clamp lo hi v else lo)"
  by (simp add: spec_clamp_def max_def min_def)

lemma spec_clamp_range:
  "lo \<le> hi \<Longrightarrow> lo \<le> spec_clamp lo hi v \<and> spec_clamp lo hi v \<le> hi"
  by (simp add: spec_clamp_def)

lemma handleNumericChange_commit:
  assumes "cropper st = Some c"
  shows "handleNumericChange surface key v True st
           = (case numericNewData key v c of
                None \<Rightarrow> None
              | Some newData \<Rightarrow> numericReadBack c (setData surface newData c) st)"
  using assms by (simp add: handleNumericChange_def)

text \<open>
  Claim C7. Take a commit-level edit with the crop surface mounted, where the four bounds
  the code computes are finite: \<open>xmax = imageWidth - currentWidth\<close>,
  \<open>ymax = imageHeight - currentHeight\<close>, \<open>wmax = imageWidth - currentX\<close> and
  \<open>hmax = imageHeight - currentY\<close>. The handler pushes into the crop surface the current
  rectangle with the edited field alone replaced, and goes on with what the surface then
  holds. The new field is the value clamped to its interval, that is the value of the
  interval nearest to it: the entered value to \<open>[0, xmax]\<close> for \<open>x\<close> and to
  \<open>[0, ymax]\<close> for \<open>y\<close>, the converted value to \<open>[1, wmax]\<close> for \<open>width\<close> and
  to \<open>[1, hmax]\<close> for \<open>height\<close>; it is the lower bound when the interval is empty. A
  converted value of \<open>+Infinity\<close> (a zero container extent) gives the larger of the two
  bounds, \<open>-Infinity\<close> gives 1, and \<^verbatim>\<open>NaN\<close> is the one case outside the model. In
  particular a width of 0, with a non-zero container width, the current \<open>x\<close> at 0 and
  an image 1000 wide, is pushed as 1.
\<close>

theorem numeric_commit_clamp:
  fixes st :: AppState and c :: Cropper and surface :: Surface and v xmax ymax wmax hmax :: rat
  defines "d \<equiv> getData c"
    and "iw \<equiv> naturalWidth (getCanvasData c)"
    and "ih \<equiv> naturalHeight (getCanvasData c)"
    and "cw \<equiv> containerWidth (getContainerData c)"
    and "ch \<equiv> containerHeight (getContainerData c)"
    and "n \<equiv> min v CROP_SIZE_MAX"
  assumes mounted: "cropper st = Some c"
    and bx: "js_minus iw (Finite (width d)) = Finite xmax"
    and bv: "js_minus ih (Finite (height d)) = Finite ymax"
    and bw: "js_minus iw (Finite (x d)) = Finite wmax"
    and bh: "js_minus ih (Finite (y d)) = Finite hmax"
  shows "handleNumericChange surface Key_x v True st
           = numericReadBack c
               (setData surface (d\<lparr>x := (if 0 \<le> xmax then spec_clamp 0 xmax n else 0)\<rparr>) c) st
       \<and> handleNumericChange surface Key_y v True st
           = numericReadBack c
               (setData surface (d\<lparr>y := (if 0 \<le> ymax then spec_clamp 0 ymax n else 0)\<rparr>) c) st
       \<and> handleNumericChange surface Key_width v True st
           = (case convertToActualSize n iw cw of
                Finite m \<Rightarrow>
                  numericReadBack c
                    (setData surface
                       (d\<lparr>width := (if 1 \<le> wmax then spec_clamp 1 wmax m else 1)\<rparr>) c) st
              | PosInfinity \<Rightarrow>
                  numericReadBack c (setData surface (d\<lparr>width := max 1 wmax\<rparr>) c) st
              | NegInfinity \<Rightarrow>
                  numericReadBack c (setData surface (d\<lparr>width := 1\<rparr>) c) st
              | NaN \<Rightarrow> None)
       \<and> handleNumericChange surface Key_height v True st
           = (case convertToActualSize n ih ch of
                Finite m \<Rightarrow>
                  numericReadBack c
                    (setData surface
                       (d\<lparr>height := (if 1 \<le> hmax then spec_clamp 1 hmax m else 1)\<rparr>) c) st
              | PosInfinity \<Rightarrow>
                  numericReadBack c (setData surface (d\<lparr>height := max 1 hmax\<rparr>) c) st
              | NegInfinity \<Rightarrow>
                  numericReadBack c (setData surface (d\<lparr>height := 1\<rparr>) c) st
              | NaN \<Rightarrow> None)
       \<and> (cw \<noteq> 0 \<and> x d = 0 \<and> iw = 1000 \<longrightarrow>
            handleNumericChange surface Key_width 0 True st
              = numericReadBack c (setData surface (d\<lparr>width := 1\<rparr>) c) st)"
proof -
  note commit = handleNumericChange_commit[OF mounted]
  have kx: "handleNumericChange surface Key_x v True st
           = numericReadBack c
               (setData surface (d\<lparr>x := (if 0 \<le> xmax then spec_clamp 0 xmax n else 0)\<rparr>) c) st"
    using bx unfolding commit d_def iw_def n_def
    by (simp add: numericNewData_def Let_def finite_value_def clamp_as_spec)
  have ky: "handleNumericChange surface Key_y v True st
           = numericReadBack c
               (setData surface (d\<lparr>y := (if 0 \<le> ymax then spec_clamp 0 ymax n else 0)\<rparr>) c) st"
    using bv unfolding commit d_def ih_def n_def
    by (simp add: numericNewData_def Let_def finite_value_def clamp_as_spec)
  have kw: "handleNumericChange surface Key_width v True st
           = (case convertToActualSize n iw cw of
                Finite m \<Rightarrow>
                  numericReadBack c
                    (setData surface
                       (d\<lparr>width := (if 1 \<le> wmax then spec_clamp 1 wmax m else 1)\<rparr>) c) st
              | PosInfinity \<Rightarrow>
                  numericReadBack c (setData surface (d\<lparr>width := max 1 wmax\<rparr>) c) st
              | NegInfinity \<Rightarrow>
                  numericReadBack c (setData surface (d\<lparr>width := 1\<rparr>) c) st
              | NaN \<Rightarrow> None)"
    using bw unfolding commit d_def iw_def cw_def n_def
    by (cases "convertToActualSize (min v CROP_SIZE_MAX) (naturalWidth (getCanvasData c))
                 (containerWidth (getContainerData c))")
       (simp_all add: numericNewData_def Let_def finite_value_def clamp_as_spec)
  have kh: "handleNumericChange surface Key_height v True st
           = (case convertToActualSize n ih ch of
                Finite m \<Rightarrow>
                  numericReadBack c
                    (setData surface
                       (d\<lparr>height := (if 1 \<le> hmax then spec_clamp 1 hmax m else 1)\<rparr>) c) st
              | PosInfinity \<Rightarrow>
                  numericReadBack c (setData surface (d\<lparr>height := max 1 hmax\<rparr>) c) st
              | NegInfinity \<Rightarrow>
                  numericReadBack c (setData surface (d\<lparr>height := 1\<rparr>) c) st
              | NaN \<Rightarrow> None)"
    using bh unfolding commit d_def ih_def ch_def n_def
    by (cases "convertToActualSize (min v CROP_SIZE_MAX) (naturalHeight (getCanvasData c))
                 (containerHeight (getContainerData c))")
       (simp_all add: numericNewData_def Let_def finite_value_def clamp_as_spec)
  have scenario: "handleNumericChange surface Key_width 0 True st
              = numericReadBack c (setData surface (d\<lparr>width := 1\<rparr>) c) st"
    if "cw \<noteq> 0" and "x d = 0" and "iw = 1000"
  proof -
    have thousand: "fl64 1000 = Finite 1000" by code_simp
    have zero: "Math_round 0 = 0" by code_simp
    have "convertToActualSize (min 0 CROP_SIZE_MAX) iw cw = Finite 0"
      using that(1)
      by (simp add: convertToActualSize_def js_divide_def js_times_def fl64_def
          Math_round_number_def CROP_SIZE_MAX_def zero)
    then show ?thesis
      using that(2,3) unfolding commit d_def iw_def cw_def
      by (simp add: numericNewData_def Let_def finite_value_def js_minus_def thousand)
  qed
  from kx ky kw kh scenario show ?thesis by blast
qed

lemma exampleEditingAtOrigin_facts:
  "cropper exampleEditingAtOrigin = Some exampleCropperAtOrigin"
  "getData exampleCropperAtOrigin = \<lparr>x = 0, y = 0, width = 300, height = 200\<rparr>"
  "naturalWidth (getCanvasData exampleCropperAtOrigin) = 1000"
  "naturalHeight (getCanvasData exampleCropperAtOrigin) = 800"
  "containerWidth (getContainerData exampleCropperAtOrigin) = 500"
  "containerHeight (getContainerData exampleCropperAtOrigin) = 400"
  by (simp_all add: exampleEditingAtOrigin_def exampleCropperAtOrigin_def exampleCropper_def)

lemma exampleCropperAtOrigin_bounds:
  "js_minus 1000 (Finite 300) = Finite 700"
  "js_minus 800 (Finite 200) = Finite 600"
  "js_minus 1000 (Finite 0) = Finite 1000"
  "js_minus 800 (Finite 0) = Finite 800"
  by code_simp+

theorem numeric_commit_clamp_witness:
  "cropper exampleEditingAtOrigin = Some exampleCropperAtOrigin
   \<and> js_minus (naturalWidth (getCanvasData exampleCropperAtOrigin))
        (Finite (width (getData exampleCropperAtOrigin))) = Finite 700
   \<and> js_minus (naturalHeight (getCanvasData exampleCropperAtOrigin))
        (Finite (height (getData exampleCropperAtOrigin))) = Finite 600
   \<and> js_minus (naturalWidth (getCanvasData exampleCropperAtOrigin))
        (Finite (x (getData exampleCropperAtOrigin))) = Finite 1000
   \<and> js_minus (naturalHeight (getCanvasData exampleCropperAtOrigin))
        (Finite (y (getData exampleCropperAtOrigin))) = Finite 800
   \<and> containerWidth (getContainerData exampleCropperAtOrigin) \<noteq> 0
   \<and> x (getData exampleCropperAtOrigin) = 0
   \<and> naturalWidth (getCanvasData exampleCropperAtOrigin) = 1000
   \<and> handleNumericChange storingSurface Key_x 5000 True exampleEditingAtOrigin
       = Some (exampleEditingAtOrigin
                 \<lparr>cropper := Some (exampleCropperAtOrigin
                                     \<lparr>getData := \<lparr>x = 700, y = 0, width = 300, height = 200\<rparr>\<rparr>),
                  activeCropSettings :=
                    \<lparr>x = 700, y = 0, width = 150, height = 100, aspectRatio = 0\<rparr>\<rparr>)
   \<and> handleNumericChange storingSurface Key_y 5000 True exampleEditingAtOrigin
       = Some (exampleEditingAtOrigin
                 \<lparr>cropper := Some (exampleCropperAtOrigin
                                     \<lparr>getData := \<lparr>x = 0, y = 600, width = 300, height = 200\<rparr>\<rparr>),
                  activeCropSettings :=
                    \<lparr>x = 0, y = 600, width = 150, height = 100, aspectRatio = 0\<rparr>\<rparr>)
   \<and> handleNumericChange storingSurface Key_width 5000 True exampleEditingAtOrigin
       = Some (exampleEditingAtOrigin
                 \<lparr>cropper := Some (exampleCropperAtOrigin
                                     \<lparr>getData := \<lparr>x = 0, y = 0, width = 1000, height = 200\<rparr>\<rparr>),
                  activeCropSettings :=
                    \<lparr>x = 0, y = 0, width = 500, height = 100, aspectRatio = 0\<rparr>\<rparr>)
   \<and> handleNumericChange storingSurface Key_height 5000 True exampleEditingAtOrigin
       = Some (exampleEditingAtOrigin
                 \<lparr>cropper := Some (exampleCropperAtOrigin
                                     \<lparr>getData := \<lparr>x = 0, y = 0, width = 300, height = 800\<rparr>\<rparr>),
                  activeCropSettings :=
                    \<lparr>x = 0, y = 0, width = 150, height = 400, aspectRatio = 0\<rparr>\<rparr>)
   \<and> handleNumericChange storingSurface Key_width 0 True exampleEditingAtOrigin
       = Some (exampleEditingAtOrigin
                 \<lparr>cropper := Some (exampleCropperAtOrigin
                                     \<lparr>getData := \<lparr>x = 0, y = 0, width = 1, height = 200\<rparr>\<rparr>),
                  activeCropSettings :=
                    \<lparr>x = 0, y = 0, width = 1, height = 100, aspectRatio = 0\<rparr>\<rparr>)"
proof -
  note f = exampleEditingAtOrigin_facts
  have b: "js_minus (naturalWidth (getCanvasData exampleCropperAtOrigin))
             (Finite (width (getData exampleCropperAtOrigin))) = Finite 700"
    "js_minus (naturalHeight (getCanvasData exampleCropperAtOrigin))
             (Finite (height (getData exampleCropperAtOrigin))) = Finite 600"
    "js_minus (naturalWidth (getCanvasData exampleCropperAtOrigin))
             (Finite (x (getData exampleCropperAtOrigin))) = Finite 1000"
    "js_minus (naturalHeight (getCanvasData exampleCropperAtOrigin))
             (Finite (y (getData exampleCropperAtOrigin))) = Finite 800"
    by (simp_all add: f exampleCropperAtOrigin_bounds)
  have g: "containerWidth (getContainerData exampleCropperAtOrigin) \<noteq> 0"
    "x (getData exampleCropperAtOrigin) = 0"
    "naturalWidth (getCanvasData exampleCropperAtOrigin) = 1000"
    by (simp_all add: f)
  note inst = numeric_commit_clamp
      [where st = exampleEditingAtOrigin and c = exampleCropperAtOrigin
         and surface = storingSurface and v = 5000, OF f(1) b]
  have kx: "handleNumericChange storingSurface Key_x 5000 True exampleEditingAtOrigin
       = Some (exampleEditingAtOrigin
                 \<lparr>cropper := Some (exampleCropperAtOrigin
                                     \<lparr>getData := \<lparr>x = 700, y = 0, width = 300, height = 200\<rparr>\<rparr>),
                  activeCropSettings :=
                    \<lparr>x = 700, y = 0, width = 150, height = 100, aspectRatio = 0\<rparr>\<rparr>)"
    by (rule trans[OF inst[THEN conjunct1]]) code_simp
  have ky: "handleNumericChange storingSurface Key_y 5000 True exampleEditingAtOrigin
       = Some (exampleEditingAtOrigin
                 \<lparr>cropper := Some (exampleCropperAtOrigin
                                     \<lparr>getData := \<lparr>x = 0, y = 600, width = 300, height = 200\<rparr>\<rparr>),
                  activeCropSettings :=
                    \<lparr>x = 0, y = 600, width = 150, height = 100, aspectRatio = 0\<rparr>\<rparr>)"
    by (rule trans[OF inst[THEN conjunct2, THEN conjunct1]]) code_simp
  have kw: "handleNumericChange storingSurface Key_width 5000 True exampleEditingAtOrigin
       = Some (exampleEditingAtOrigin
                 \<lparr>cropper := Some (exampleCropperAtOrigin
                                     \<lparr>getData := \<lparr>x = 0, y = 0, width = 1000, height = 200\<rparr>\<rparr>),
                  activeCropSettings :=
                    \<lparr>x = 0, y = 0, width = 500, height = 100, aspectRatio = 0\<rparr>\<rparr>)"
    by (rule trans[OF inst[THEN conjunct2, THEN conjunct2, THEN conjunct1]]) code_simp
  have kh: "handleNumericChange storingSurface Key_height 5000 True exampleEditingAtOrigin
       = Some (exampleEditingAtOrigin
                 \<lparr>cropper := Some (exampleCropperAtOrigin
                                     \<lparr>getData := \<lparr>x = 0, y = 0, width = 300, height = 800\<rparr>\<rparr>),
                  activeCropSettings :=
                    \<lparr>x = 0, y = 0, width = 150, height = 400, aspectRatio = 0\<rparr>\<rparr>)"
    by (rule trans[OF inst[THEN conjunct2, THEN conjunct2, THEN conjunct2, THEN conjunct1]])
       code_simp
  have "handleNumericChange storingSurface Key_width 0 True exampleEditingAtOrigin
          = numericReadBack exampleCropperAtOrigin
              (setData storingSurface (getData exampleCropperAtOrigin\<lparr>width := 1\<rparr>)
                 exampleCropperAtOrigin) exampleEditingAtOrigin"
    using inst[THEN conjunct2, THEN conjunct2, THEN conjunct2, THEN conjunct2] g by blast
  then have k0: "handleNumericChange storingSurface Key_width 0 True exampleEditingAtOrigin
       = Some (exampleEditingAtOrigin
                 \<lparr>cropper := Some (exampleCropperAtOrigin
                                     \<lparr>getData := \<lparr>x = 0, y = 0, width = 1, height = 200\<rparr>\<rparr>),
                  activeCropSettings :=
                    \<lparr>x = 0, y = 0, width = 1, height = 100, aspectRatio = 0\<rparr>\<rparr>)"
    by (rule trans) code_simp
  from f(1) b g kx ky kw kh k0 show ?thesis by (intro conjI)
qed

end
